theory Spec2Isabelle
  imports Main "HOL-Library.AList" "HOL-Library.Char_ord" "HOL-Library.List_Lexorder"
begin

section \<open>Data model\<close>

text \<open>
  The model of \<^verbatim>\<open>auto_convert.py\<close>. A path is the list of its components below the
  root, as \<^verbatim>\<open>pathlib.Path\<close> keeps its parts: an absolute path without \<^verbatim>\<open>.\<close> or
  \<^verbatim>\<open>..\<close>, which is what the program handles once \<^verbatim>\<open>main\<close> has resolved the two
  directories. The file system is an association list from paths to nodes; \<^verbatim>\<open>map_of\<close>
  is the lookup. A string is a list of bytes, the UTF-8 encoding of the Python string.
\<close>

type_synonym path = "string list"

datatype node = File string | Dir

type_synonym filesystem = "(path \<times> node) list"

datatype level = DEBUG | INFO | WARNING | ERROR

text \<open>One constructor for each logging call of the program, with the values it formats.\<close>

datatype message =
    FileMissingRetry path
  | ImageOutputExists path
  | CannotIdentifyImage path
  | FailedToConvertImage path
  | ConvertedImage string string
  | VideoOutputExists path
  | RunningFfmpeg "string list"
  | FfmpegFailed path string
  | FfmpegNotFound
  | ConvertedVideo string string
  | FfmpegOutput string
  | NotStabilized path
  | NoConverter path
  | ProcessingExisting string

text \<open>
  The side effects a function performs besides changing the file system, in the order
  they happen: a logging call, \<^verbatim>\<open>time.sleep(interval)\<close>, the PIL open/convert/save of an
  image, and \<^verbatim>\<open>subprocess.run(cmd)\<close>.
\<close>

datatype effect =
    Log level message
  | Sleep
  | PilConvert path path
  | Subprocess "string list"

text \<open>Exceptions that leave a function of the program.\<close>

datatype error = StatOSError | MkdirError | SubprocessOSError | StderrDecodeError | IterdirError

section \<open>Stability prober: \<^verbatim>\<open>wait_for_file_ready\<close>\<close>

text \<open>
  What one iteration of the polling loop finds when it calls \<^verbatim>\<open>path.stat()\<close>: a size,
  \<^verbatim>\<open>FileNotFoundError\<close>, or another \<^verbatim>\<open>OSError\<close> (which the loop does not catch).
\<close>

datatype poll = Size int | Missing | StatError

text \<open>
  The loop \<^verbatim>\<open>while time.monotonic() < deadline\<close>. The clock belongs to the environment:
  the list holds one poll for every iteration whose guard held, and it ends where the
  guard fails (every iteration sleeps, so the deadline is reached after finitely many).
  The arguments \<open>last_size\<close> and \<open>stable_count\<close> are the two loop variables. The result
  is the returned value, or the exception raised, with the effects performed.
\<close>

fun wait_loop :: "path \<Rightarrow> int \<Rightarrow> int \<Rightarrow> int \<Rightarrow> poll list \<Rightarrow> (error + bool) \<times> effect list" where
  "wait_loop p stable_checks last_size stable_count [] = (Inr False, [])"
| "wait_loop p stable_checks last_size stable_count (Missing # tr) =
     (case wait_loop p stable_checks last_size stable_count tr of
        (r, fx) \<Rightarrow> (r, Log DEBUG (FileMissingRetry p) # Sleep # fx))"
| "wait_loop p stable_checks last_size stable_count (StatError # tr) = (Inl StatOSError, [])"
| "wait_loop p stable_checks last_size stable_count (Size s # tr) =
     (if s = last_size \<and> s > 0 then
        (if stable_count + 1 \<ge> stable_checks then (Inr True, [])
         else (case wait_loop p stable_checks last_size (stable_count + 1) tr of
                 (r, fx) \<Rightarrow> (r, Sleep # fx)))
      else (case wait_loop p stable_checks s 0 tr of (r, fx) \<Rightarrow> (r, Sleep # fx)))"

definition wait_for_file_ready :: "path \<Rightarrow> int \<Rightarrow> poll list \<Rightarrow> (error + bool) \<times> effect list" where
  "wait_for_file_ready p stable_checks tr = wait_loop p stable_checks (- 1) 0 tr"

text \<open>
  The sizes the loop observes on a trace of polls, in order: a poll that finds the file
  missing observes none, and a stat error ends the loop.
\<close>

fun sizes :: "poll list \<Rightarrow> int list" where
  "sizes [] = []"
| "sizes (Size s # tr) = s # sizes tr"
| "sizes (Missing # tr) = sizes tr"
| "sizes (StatError # tr) = []"

text \<open>
  \<open>run_at n prev xs\<close>: the next \<open>n\<close> observations after one of size \<open>prev\<close> are each
  unchanged from the observation before and greater than zero.
  \<open>has_stable_run n xs\<close>: somewhere in \<open>xs\<close> there is such a run of \<open>n\<close> observations.
\<close>

fun run_at :: "nat \<Rightarrow> int \<Rightarrow> int list \<Rightarrow> bool" where
  "run_at 0 prev xs = True"
| "run_at (Suc n) prev [] = False"
| "run_at (Suc n) prev (x # xs) = (x = prev \<and> 0 < x \<and> run_at n x xs)"

fun has_stable_run :: "nat \<Rightarrow> int list \<Rightarrow> bool" where
  "has_stable_run n [] = False"
| "has_stable_run n (x # xs) = (run_at n x xs \<or> has_stable_run n xs)"

text \<open>
  The same condition read on the polls themselves, the missing ones included:
  \<open>poll_run_at n prev tr\<close> says that the next \<open>n\<close> polls each observe a size, unchanged
  from the size observed before (\<open>prev\<close>) and greater than zero, so a poll that finds
  the file missing ends the run; \<open>has_stable_poll_run n prev tr\<close> says that such a run of
  \<open>n\<close> consecutive polls starts somewhere in \<open>tr\<close>.
\<close>

fun poll_run_at :: "nat \<Rightarrow> int \<Rightarrow> poll list \<Rightarrow> bool" where
  "poll_run_at 0 prev tr = True"
| "poll_run_at (Suc n) prev [] = False"
| "poll_run_at (Suc n) prev (Size x # tr) = (x = prev \<and> 0 < x \<and> poll_run_at n x tr)"
| "poll_run_at (Suc n) prev (Missing # tr) = False"
| "poll_run_at (Suc n) prev (StatError # tr) = False"

fun has_stable_poll_run :: "nat \<Rightarrow> int \<Rightarrow> poll list \<Rightarrow> bool" where
  "has_stable_poll_run n prev [] = False"
| "has_stable_poll_run n prev (Size x # tr) =
     (poll_run_at n prev (Size x # tr) \<or> has_stable_poll_run n x tr)"
| "has_stable_poll_run n prev (Missing # tr) = has_stable_poll_run n prev tr"
| "has_stable_poll_run n prev (StatError # tr) = False"

section \<open>Paths, strings and the file system\<close>

definition path_exists :: "filesystem \<Rightarrow> path \<Rightarrow> bool" where
  "path_exists fs p = (map_of fs p \<noteq> None)"

definition is_file :: "filesystem \<Rightarrow> path \<Rightarrow> bool" where
  "is_file fs p = (case map_of fs p of Some (File c) \<Rightarrow> True | _ \<Rightarrow> False)"

definition is_dir :: "filesystem \<Rightarrow> path \<Rightarrow> bool" where
  "is_dir fs p = (map_of fs p = Some Dir)"

definition name :: "path \<Rightarrow> string" where
  "name p = (if p = [] then [] else last p)"

text \<open>\<^verbatim>\<open>str.rfind(c)\<close>: the index of the last occurrence, or \<open>-1\<close>.\<close>

definition rfind :: "string \<Rightarrow> char \<Rightarrow> int" where
  "rfind s c = int (length (dropWhile (\<lambda>x. x \<noteq> c) (rev s))) - 1"

text \<open>
  \<^verbatim>\<open>PurePath.suffix\<close> and \<^verbatim>\<open>PurePath.stem\<close> as pathlib defines them:
  \<^verbatim>\<open>i = name.rfind('.')\<close>, and the name is split at \<open>i\<close> when
  \<^verbatim>\<open>0 < i < len(name) - 1\<close>.
\<close>

definition suffix :: "path \<Rightarrow> string" where
  "suffix p =
     (let i = rfind (name p) (CHR ''.'')
      in if 0 < i \<and> i < int (length (name p)) - 1 then drop (nat i) (name p) else [])"

definition stem :: "path \<Rightarrow> string" where
  "stem p =
     (let i = rfind (name p) (CHR ''.'')
      in if 0 < i \<and> i < int (length (name p)) - 1 then take (nat i) (name p) else name p)"

text \<open>
  A string of the model is the UTF-8 encoding of the Python string, so the byte \<open>0x2E\<close>
  occurs exactly where the string has a dot, and the order of the bytes is the order of
  the code points. On a string of ASCII characters \<^verbatim>\<open>str.lower()\<close> and \<^verbatim>\<open>str.strip()\<close>
  are the functions written out below. On any other string they follow the Unicode tables
  of the interpreter (\<^verbatim>\<open>'\u212a'.lower() == 'k'\<close>, and \<^verbatim>\<open>strip\<close> removes \<^verbatim>\<open>'\xa0'\<close>), which
  are no part of the program: the model takes them as a parameter, and a statement about
  \<open>py\<close> holds whatever the two functions do there.
\<close>

record stdlib =
  unicode_lower :: "string \<Rightarrow> string"
  unicode_strip :: "string \<Rightarrow> string"

definition is_ascii :: "char \<Rightarrow> bool" where
  "is_ascii c = (\<not> digit7 c)"

definition lower_char :: "char \<Rightarrow> char" where
  "lower_char c =
     (case map_of (zip ''ABCDEFGHIJKLMNOPQRSTUVWXYZ'' ''abcdefghijklmnopqrstuvwxyz'') c of
        Some d \<Rightarrow> d | None \<Rightarrow> c)"

definition lower :: "stdlib \<Rightarrow> string \<Rightarrow> string" where
  "lower py s = (if list_all is_ascii s then map lower_char s else unicode_lower py s)"

definition startswith :: "string \<Rightarrow> string \<Rightarrow> bool" where
  "startswith s pre = (take (length pre) s = pre)"

text \<open>\<^verbatim>\<open>str.strip()\<close>: on an ASCII string, the ASCII whitespace is removed at both ends.\<close>

definition is_space :: "char \<Rightarrow> bool" where
  "is_space c = (c \<in> set [CHR 0x09, CHR 0x0A, CHR 0x0B, CHR 0x0C, CHR 0x0D,
                          CHR 0x1C, CHR 0x1D, CHR 0x1E, CHR 0x1F, CHR 0x20])"

definition strip :: "stdlib \<Rightarrow> string \<Rightarrow> string" where
  "strip py s =
     (if list_all is_ascii s then rev (dropWhile is_space (rev (dropWhile is_space s)))
      else unicode_strip py s)"

definition str_path :: "path \<Rightarrow> string" where
  "str_path p = (if p = [] then ''/'' else concat (map (\<lambda>c. CHR ''/'' # c) p))"

text \<open>
  \<^verbatim>\<open>Path.iterdir()\<close>: the entries directly inside a directory; it raises when the path
  is not a directory.
\<close>

definition iterdir :: "filesystem \<Rightarrow> path \<Rightarrow> error + path list" where
  "iterdir fs d =
     (if is_dir fs d then Inr (remdups (filter (\<lambda>q. q \<noteq> [] \<and> butlast q = d) (map fst fs)))
      else Inl IterdirError)"

text \<open>The non-empty prefixes of a path, shortest first: the directories \<^verbatim>\<open>mkdir(parents=True)\<close> visits.\<close>

fun ancestors :: "path \<Rightarrow> path list" where
  "ancestors [] = []"
| "ancestors (c # cs) = [c] # map ((#) c) (ancestors cs)"

fun mkdirs :: "filesystem \<Rightarrow> path list \<Rightarrow> error + filesystem" where
  "mkdirs fs [] = Inr fs"
| "mkdirs fs (q # qs) =
     (case map_of fs q of
        None \<Rightarrow> mkdirs (AList.update q Dir fs) qs
      | Some Dir \<Rightarrow> mkdirs fs qs
      | Some (File c) \<Rightarrow> Inl MkdirError)"

definition ensure_directory :: "filesystem \<Rightarrow> path \<Rightarrow> error + filesystem" where
  "ensure_directory fs p = (if \<not> path_exists fs p then mkdirs fs (ancestors p) else Inr fs)"

section \<open>Configuration and environment\<close>

record conversion_config =
  input_dir :: path
  output_dir :: path
  image_exts :: "string set"
  video_exts :: "string set"
  ffmpeg_bin :: string
  video_crf :: string
  video_preset :: string

definition image_output_dir :: "conversion_config \<Rightarrow> path" where
  "image_output_dir cfg = output_dir cfg @ [''images'']"

definition video_output_dir :: "conversion_config \<Rightarrow> path" where
  "video_output_dir cfg = output_dir cfg @ [''videos'']"

definition IMAGE_EXTENSIONS :: "string set" where
  "IMAGE_EXTENSIONS =
     {''.jpg'', ''.jpeg'', ''.bmp'', ''.gif'', ''.tif'', ''.tiff'', ''.webp'', ''.heic'', ''.heif''}"

definition VIDEO_EXTENSIONS :: "string set" where
  "VIDEO_EXTENSIONS =
     {''.mp4'', ''.mov'', ''.mkv'', ''.avi'', ''.m4v'', ''.wmv'', ''.flv'', ''.webm''}"

text \<open>
  What the two external capabilities do. For PIL: the PNG bytes saved, or
  \<^verbatim>\<open>UnidentifiedImageError\<close>, or another exception, with the partial file it may have
  left. For \<^verbatim>\<open>subprocess.run\<close> with \<^verbatim>\<open>stderr=PIPE, text=True\<close>: the exit status, the
  captured stderr as text and the file the process left at its output path; or the
  captured bytes are not text in the encoding of the locale, and reading them raises
  \<^verbatim>\<open>UnicodeDecodeError\<close> before the exit status is looked at (the exit status and the file
  the process left are recorded); or \<^verbatim>\<open>FileNotFoundError\<close> (no such binary); or another
  \<^verbatim>\<open>OSError\<close> at launch.
\<close>

datatype pil_result = Saved string | Unidentified | OtherFailure "string option"

datatype proc_result =
    Exited int string "string option"
  | Undecodable int "string option"
  | BinaryNotFound
  | LaunchFailed

record environment =
  polls :: "path \<Rightarrow> poll list"
  pil :: "path \<Rightarrow> path \<Rightarrow> pil_result"
  run_process :: "string list \<Rightarrow> proc_result"

section \<open>Converters\<close>

definition convert_image_to_png ::
  "environment \<Rightarrow> path \<Rightarrow> path \<Rightarrow> filesystem \<Rightarrow> filesystem \<times> effect list" where
  "convert_image_to_png env src dest_dir fs =
     (let output_path = dest_dir @ [stem src @ ''.png''] in
      if path_exists fs output_path then (fs, [Log INFO (ImageOutputExists output_path)])
      else
        (case pil env src output_path of
           Saved c \<Rightarrow>
             (AList.update output_path (File c) fs,
              [PilConvert src output_path,
               Log INFO (ConvertedImage (name src) (name output_path))])
         | Unidentified \<Rightarrow>
             (fs, [PilConvert src output_path, Log ERROR (CannotIdentifyImage src)])
         | OtherFailure partial \<Rightarrow>
             ((case partial of None \<Rightarrow> fs | Some c \<Rightarrow> AList.update output_path (File c) fs),
              [PilConvert src output_path, Log ERROR (FailedToConvertImage src)])))"

text \<open>
  What \<^verbatim>\<open>convert_image_to_png\<close> does once it has found no file at the output path: the
  \<^verbatim>\<open>try\<close> block and the record that follows it. Another thread may write between the
  check and this part.
\<close>

definition convert_image_after_check ::
  "environment \<Rightarrow> path \<Rightarrow> path \<Rightarrow> filesystem \<Rightarrow> filesystem \<times> effect list" where
  "convert_image_after_check env src output_path fs =
     (case pil env src output_path of
        Saved c \<Rightarrow>
          (AList.update output_path (File c) fs,
           [PilConvert src output_path,
            Log INFO (ConvertedImage (name src) (name output_path))])
      | Unidentified \<Rightarrow>
          (fs, [PilConvert src output_path, Log ERROR (CannotIdentifyImage src)])
      | OtherFailure partial \<Rightarrow>
          ((case partial of None \<Rightarrow> fs | Some c \<Rightarrow> AList.update output_path (File c) fs),
           [PilConvert src output_path, Log ERROR (FailedToConvertImage src)]))"

text \<open>The argument list \<^verbatim>\<open>cmd\<close> that \<^verbatim>\<open>convert_video_to_mp4\<close> builds.\<close>

definition ffmpeg_cmd :: "string \<Rightarrow> string \<Rightarrow> string \<Rightarrow> path \<Rightarrow> path \<Rightarrow> string list" where
  "ffmpeg_cmd bin crf preset src output_path =
     [bin, ''-y'', ''-i'', str_path src, ''-c:v'', ''libx264'', ''-preset'', preset,
      ''-crf'', crf, ''-c:a'', ''aac'', ''-b:a'', ''192k'', str_path output_path]"

text \<open>
  \<^verbatim>\<open>convert_video_to_mp4\<close>: \<^verbatim>\<open>CalledProcessError\<close> and \<^verbatim>\<open>FileNotFoundError\<close> are caught;
  \<^verbatim>\<open>UnicodeDecodeError\<close> and any other \<^verbatim>\<open>OSError\<close> leave the function, after the debug record
  and the call.
\<close>

definition convert_video_to_mp4 ::
  "stdlib \<Rightarrow> environment \<Rightarrow> path \<Rightarrow> path \<Rightarrow> string \<Rightarrow> string \<Rightarrow> string \<Rightarrow> filesystem
     \<Rightarrow> error option \<times> filesystem \<times> effect list" where
  "convert_video_to_mp4 py env src dest_dir bin crf preset fs =
     (let output_path = dest_dir @ [stem src @ ''.mp4''] in
      if path_exists fs output_path then (None, fs, [Log INFO (VideoOutputExists output_path)])
      else
        (let cmd = ffmpeg_cmd bin crf preset src output_path in
         case run_process env cmd of
           Exited rc err written \<Rightarrow>
             (let fs1 = (case written of None \<Rightarrow> fs
                         | Some c \<Rightarrow> AList.update output_path (File c) fs) in
              if rc \<noteq> 0 then
                (None,
                 (if path_exists fs1 output_path then AList.delete output_path fs1 else fs1),
                 [Log DEBUG (RunningFfmpeg cmd), Subprocess cmd,
                  Log ERROR (FfmpegFailed src (strip py err))])
              else
                (None, fs1,
                 [Log DEBUG (RunningFfmpeg cmd), Subprocess cmd,
                  Log INFO (ConvertedVideo (name src) (name output_path))]
                 @ (if err \<noteq> [] then [Log DEBUG (FfmpegOutput (strip py err))] else [])))
         | Undecodable rc written \<Rightarrow>
             (Some StderrDecodeError,
              (case written of None \<Rightarrow> fs | Some c \<Rightarrow> AList.update output_path (File c) fs),
              [Log DEBUG (RunningFfmpeg cmd), Subprocess cmd])
         | BinaryNotFound \<Rightarrow>
             (None, fs, [Log DEBUG (RunningFfmpeg cmd), Subprocess cmd, Log ERROR FfmpegNotFound])
         | LaunchFailed \<Rightarrow>
             (Some SubprocessOSError, fs, [Log DEBUG (RunningFfmpeg cmd), Subprocess cmd])))"

section \<open>The event handler\<close>

definition should_ignore :: "stdlib \<Rightarrow> conversion_config \<Rightarrow> filesystem \<Rightarrow> path \<Rightarrow> bool" where
  "should_ignore py cfg fs path =
     (let sfx = lower py (suffix path) in
      if sfx \<notin> image_exts cfg \<and> sfx \<notin> video_exts cfg then True
      else if startswith (name path) ''.'' then True
      else if \<not> path_exists fs path then True
      else False)"

text \<open>
  \<^verbatim>\<open>_schedule\<close>: the block under \<^verbatim>\<open>with self._lock\<close> is one step, the check and the add
  together. The result is the new in-flight set and the arguments of the threads started.
  The set is keyed by the path the event carries, \<^verbatim>\<open>Path(event.src_path)\<close>.
\<close>

definition schedule ::
  "stdlib \<Rightarrow> conversion_config \<Rightarrow> filesystem \<Rightarrow> path set \<Rightarrow> path \<Rightarrow> path set \<times> path list" where
  "schedule py cfg fs in_progress path =
     (if should_ignore py cfg fs path then (in_progress, [])
      else if path \<in> in_progress then (in_progress, [])
      else (insert path in_progress, [path]))"

record event =
  is_directory :: bool
  src_path :: path

definition on_created ::
  "stdlib \<Rightarrow> conversion_config \<Rightarrow> filesystem \<Rightarrow> path set \<Rightarrow> event \<Rightarrow> path set \<times> path list" where
  "on_created py cfg fs in_progress ev =
     (if \<not> is_directory ev then schedule py cfg fs in_progress (src_path ev) else (in_progress, []))"

definition on_modified ::
  "stdlib \<Rightarrow> conversion_config \<Rightarrow> filesystem \<Rightarrow> path set \<Rightarrow> event \<Rightarrow> path set \<times> path list" where
  "on_modified py cfg fs in_progress ev =
     (if \<not> is_directory ev then schedule py cfg fs in_progress (src_path ev) else (in_progress, []))"

text \<open>The \<^verbatim>\<open>try\<close> block of \<^verbatim>\<open>_process_path\<close>: the exception that leaves it, if any, the file
  system and the effects.\<close>

definition process_path_try ::
  "stdlib \<Rightarrow> conversion_config \<Rightarrow> environment \<Rightarrow> path \<Rightarrow> filesystem
     \<Rightarrow> error option \<times> filesystem \<times> effect list" where
  "process_path_try py cfg env path fs =
     (case wait_for_file_ready path 3 (polls env path) of
        (Inl e, wfx) \<Rightarrow> (Some e, fs, wfx)
      | (Inr False, wfx) \<Rightarrow> (None, fs, wfx @ [Log WARNING (NotStabilized path)])
      | (Inr True, wfx) \<Rightarrow>
          (let sfx = lower py (suffix path) in
           if sfx \<in> image_exts cfg then
             (case ensure_directory fs (image_output_dir cfg) of
                Inl e \<Rightarrow> (Some e, fs, wfx)
              | Inr fs1 \<Rightarrow>
                  (case convert_image_to_png env path (image_output_dir cfg) fs1 of
                     (fs2, cfx) \<Rightarrow> (None, fs2, wfx @ cfx)))
           else if sfx \<in> video_exts cfg then
             (case ensure_directory fs (video_output_dir cfg) of
                Inl e \<Rightarrow> (Some e, fs, wfx)
              | Inr fs1 \<Rightarrow>
                  (case convert_video_to_mp4 py env path (video_output_dir cfg) (ffmpeg_bin cfg)
                          (video_crf cfg) (video_preset cfg) fs1 of
                     (r, fs2, cfx) \<Rightarrow> (r, fs2, wfx @ cfx)))
           else (None, fs, wfx @ [Log DEBUG (NoConverter path)])))"

text \<open>
  \<^verbatim>\<open>_process_path\<close>: the \<^verbatim>\<open>finally\<close> block discards the path from the in-flight set
  (under the lock, so in one step) however the \<^verbatim>\<open>try\<close> block ends, and an exception
  goes on to the caller.
\<close>

definition process_path ::
  "stdlib \<Rightarrow> conversion_config \<Rightarrow> environment \<Rightarrow> path \<Rightarrow> path set \<Rightarrow> filesystem
     \<Rightarrow> error option \<times> path set \<times> filesystem \<times> effect list" where
  "process_path py cfg env path in_progress fs =
     (case process_path_try py cfg env path fs of
        (r, fs', fx) \<Rightarrow> (r, in_progress - {path}, fs', fx))"

section \<open>The startup bulk pass\<close>

text \<open>The body of the \<^verbatim>\<open>for\<close> loop of \<^verbatim>\<open>process_existing_files\<close>, for one path.\<close>

definition process_existing_file ::
  "stdlib \<Rightarrow> conversion_config \<Rightarrow> environment \<Rightarrow> path \<Rightarrow> filesystem
     \<Rightarrow> error option \<times> filesystem \<times> effect list" where
  "process_existing_file py cfg env path fs =
     (if is_file fs path then
        (let sfx = lower py (suffix path) in
         if sfx \<in> image_exts cfg \<or> sfx \<in> video_exts cfg then
           (if sfx \<in> image_exts cfg then
              (case ensure_directory fs (image_output_dir cfg) of
                 Inl e \<Rightarrow> (Some e, fs, [Log INFO (ProcessingExisting (name path))])
               | Inr fs1 \<Rightarrow>
                   (case convert_image_to_png env path (image_output_dir cfg) fs1 of
                      (fs2, cfx) \<Rightarrow>
                        (None, fs2, Log INFO (ProcessingExisting (name path)) # cfx)))
            else
              (case ensure_directory fs (video_output_dir cfg) of
                 Inl e \<Rightarrow> (Some e, fs, [Log INFO (ProcessingExisting (name path))])
               | Inr fs1 \<Rightarrow>
                   (case convert_video_to_mp4 py env path (video_output_dir cfg) (ffmpeg_bin cfg)
                           (video_crf cfg) (video_preset cfg) fs1 of
                      (r, fs2, cfx) \<Rightarrow>
                        (r, fs2, Log INFO (ProcessingExisting (name path)) # cfx))))
         else (None, fs, []))
      else (None, fs, []))"

text \<open>The loop over the sorted listing: one path after the other, until an exception.\<close>

fun process_files ::
  "stdlib \<Rightarrow> conversion_config \<Rightarrow> environment \<Rightarrow> path list \<Rightarrow> filesystem
     \<Rightarrow> error option \<times> filesystem \<times> effect list" where
  "process_files py cfg env [] fs = (None, fs, [])"
| "process_files py cfg env (path # ps) fs =
     (case process_existing_file py cfg env path fs of
        (Some e, fs1, fx) \<Rightarrow> (Some e, fs1, fx)
      | (None, fs1, fx) \<Rightarrow>
          (case process_files py cfg env ps fs1 of (r, fs2, fx') \<Rightarrow> (r, fs2, fx @ fx')))"

definition process_existing_files ::
  "stdlib \<Rightarrow> conversion_config \<Rightarrow> environment \<Rightarrow> filesystem \<Rightarrow> error option \<times> filesystem \<times> effect list" where
  "process_existing_files py cfg env fs =
     (case iterdir fs (input_dir cfg) of
        Inl e \<Rightarrow> (Some e, fs, [])
      | Inr ps \<Rightarrow> process_files py cfg env (sort ps) fs)"


section \<open>The watcher as a transition system\<close>

text \<open>
  The handler's shared state is the in-flight set; \<open>active\<close> lists the threads started
  by \<^verbatim>\<open>_schedule\<close> that have not yet run their \<^verbatim>\<open>finally\<close> block. An action is the
  delivery of one event (with the file system as it is then) or the end of one thread
  (with the environment and file system it ran in). The lock makes the check-and-add
  and the discard single steps, so every interleaving is a list of actions.
\<close>

record watcher =
  in_flight :: "path set"
  active :: "path list"

datatype action =
    Created event filesystem
  | Modified event filesystem
  | Finished path environment filesystem

fun step :: "stdlib \<Rightarrow> conversion_config \<Rightarrow> watcher \<Rightarrow> action \<Rightarrow> watcher \<times> path list" where
  "step py cfg w (Created ev fs) =
     (case on_created py cfg fs (in_flight w) ev of
        (ip, started) \<Rightarrow> (\<lparr>in_flight = ip, active = active w @ started\<rparr>, started))"
| "step py cfg w (Modified ev fs) =
     (case on_modified py cfg fs (in_flight w) ev of
        (ip, started) \<Rightarrow> (\<lparr>in_flight = ip, active = active w @ started\<rparr>, started))"
| "step py cfg w (Finished path env fs) =
     (if path \<in> set (active w) then
        (case process_path py cfg env path (in_flight w) fs of
           (r, ip, fs', fx) \<Rightarrow> (\<lparr>in_flight = ip, active = remove1 path (active w)\<rparr>, []))
      else (w, []))"

text \<open>The state after a list of actions, and the threads each action started.\<close>

fun run :: "stdlib \<Rightarrow> conversion_config \<Rightarrow> watcher \<Rightarrow> action list \<Rightarrow> watcher" where
  "run py cfg w [] = w"
| "run py cfg w (a # as) = run py cfg (fst (step py cfg w a)) as"

fun started_by :: "stdlib \<Rightarrow> conversion_config \<Rightarrow> watcher \<Rightarrow> action list \<Rightarrow> path list list" where
  "started_by py cfg w [] = []"
| "started_by py cfg w (a # as) = snd (step py cfg w a) # started_by py cfg (fst (step py cfg w a)) as"

definition initial :: watcher where
  "initial = \<lparr>in_flight = {}, active = []\<rparr>"

section \<open>Vocabulary of the statements\<close>

text \<open>
  A path is accepted when its lower-cased suffix is in one of the two configured sets;
  its destination is the output file the converter of its class would write (the image
  set is looked at first, as both callers do).
\<close>

definition accepted :: "stdlib \<Rightarrow> conversion_config \<Rightarrow> path \<Rightarrow> bool" where
  "accepted py cfg p = (lower py (suffix p) \<in> image_exts cfg \<or> lower py (suffix p) \<in> video_exts cfg)"



fun is_subprocess :: "effect \<Rightarrow> bool" where
  "is_subprocess (Subprocess cmd) = True"
| "is_subprocess (PilConvert src out) = False"
| "is_subprocess (Log l m) = False"
| "is_subprocess Sleep = False"

text \<open>
  The log records of the bulk pass: the one that announces a file, and the one that
  reports that the output exists already and the file is skipped.
\<close>

fun announced :: "effect \<Rightarrow> bool" where
  "announced (Log INFO (ProcessingExisting n)) = True"
| "announced e = False"


text \<open>
  An action that delivers a created or modified event for the file \<open>p\<close> (not a
  directory) at a moment when the filter lets \<open>p\<close> through.
\<close>

fun delivers :: "stdlib \<Rightarrow> conversion_config \<Rightarrow> path \<Rightarrow> action \<Rightarrow> bool" where
  "delivers py cfg p (Created ev fs) =
     (\<not> is_directory ev \<and> src_path ev = p \<and> \<not> should_ignore py cfg fs p)"
| "delivers py cfg p (Modified ev fs) =
     (\<not> is_directory ev \<and> src_path ev = p \<and> \<not> should_ignore py cfg fs p)"
| "delivers py cfg p (Finished q env fs) = False"

section \<open>Example inputs\<close>

text \<open>A library whose two Unicode functions change nothing outside ASCII.\<close>

definition example_stdlib :: stdlib where
  "example_stdlib = \<lparr>unicode_lower = (\<lambda>s. s), unicode_strip = (\<lambda>s. s)\<rparr>"

text \<open>The default configuration.\<close>

definition example_config :: conversion_config where
  "example_config =
     \<lparr>input_dir = [''input''], output_dir = [''output''],
      image_exts = IMAGE_EXTENSIONS, video_exts = VIDEO_EXTENSIONS,
      ffmpeg_bin = ''ffmpeg'', video_crf = ''23'', video_preset = ''medium''\<rparr>"

text \<open>Every file is stable from the first poll on, and every conversion succeeds.\<close>

definition working_env :: environment where
  "working_env =
     \<lparr>polls = (\<lambda>p. [Size 9, Size 9, Size 9, Size 9]),
      pil = (\<lambda>src out. Saved ''png''),
      run_process = (\<lambda>cmd. Exited 0 [] (Some ''mp4''))\<rparr>"

text \<open>No image can be identified, and there is no transcoder binary.\<close>

definition failing_env :: environment where
  "failing_env =
     \<lparr>polls = (\<lambda>p. [Size 9, Size 9, Size 9, Size 9]),
      pil = (\<lambda>src out. Unidentified),
      run_process = (\<lambda>cmd. BinaryNotFound)\<rparr>"

text \<open>The same, and every file stays empty.\<close>

definition zero_env :: environment where
  "zero_env =
     \<lparr>polls = (\<lambda>p. [Size 0, Size 0, Size 0, Size 0]),
      pil = (\<lambda>src out. Unidentified),
      run_process = (\<lambda>cmd. BinaryNotFound)\<rparr>"

text \<open>The transcoder fails: exit status 1, a diagnostic on stderr and a partial output file.\<close>

definition invalid_codec_env :: environment where
  "invalid_codec_env =
     \<lparr>polls = (\<lambda>p. []), pil = (\<lambda>src out. Unidentified),
      run_process = (\<lambda>cmd. Exited 1 (''invalid codec'' @ [CHR 0x0A]) (Some ''partial''))\<rparr>"

text \<open>
  The transcoder fails likewise, but a byte of its diagnostic (\<open>0xFF\<close>) is not text in
  the encoding of the locale.
\<close>

definition undecodable_env :: environment where
  "undecodable_env =
     \<lparr>polls = (\<lambda>p. [Size 9, Size 9, Size 9, Size 9]), pil = (\<lambda>src out. Unidentified),
      run_process = (\<lambda>cmd. Undecodable 1 (Some ''partial''))\<rparr>"

text \<open>Saving an image fails with an exception after part of the file is written.\<close>

definition partial_png_env :: environment where
  "partial_png_env =
     \<lparr>polls = (\<lambda>p. [Size 9, Size 9, Size 9, Size 9]),
      pil = (\<lambda>src out. OtherFailure (Some ''part'')),
      run_process = (\<lambda>cmd. BinaryNotFound)\<rparr>"

text \<open>Both capabilities raise an exception their caller does not expect.\<close>

definition broken_env :: environment where
  "broken_env =
     \<lparr>polls = (\<lambda>p. [Size 9, Size 9, Size 9, Size 9]),
      pil = (\<lambda>src out. OtherFailure None),
      run_process = (\<lambda>cmd. LaunchFailed)\<rparr>"

text \<open>The third poll of a file fails with an error other than not-found.\<close>

definition stat_error_env :: environment where
  "stat_error_env =
     \<lparr>polls = (\<lambda>p. [Size 9, Missing, StatError]),
      pil = (\<lambda>src out. Unidentified),
      run_process = (\<lambda>cmd. BinaryNotFound)\<rparr>"

text \<open>
  File systems: one image that cannot be decoded; two videos; an image and a video not
  yet converted, and the same after their conversion; an empty image file; a hidden
  image.
\<close>

definition fs_corrupt :: filesystem where
  "fs_corrupt = [([''input''], Dir), ([''input'', ''a.jpg''], File ''junk''),
      ([''output''], Dir), ([''output'', ''images''], Dir)]"

definition fs_videos :: filesystem where
  "fs_videos = [([''input''], Dir), ([''input'', ''a.mp4''], File ''one''),
      ([''input'', ''b.mp4''], File ''two''), ([''output''], Dir), ([''output'', ''videos''], Dir)]"

definition fs_fresh :: filesystem where
  "fs_fresh = [([''input''], Dir), ([''input'', ''b.jpg''], File ''jpeg''),
      ([''input'', ''a.MOV''], File ''mov''), ([''output''], Dir)]"



definition fs_hidden :: filesystem where
  "fs_hidden = [([''input''], Dir), ([''input'', ''.tmp.jpg''], File ''jpeg'')]"

text \<open>Two images with the same stem, and a PIL whose output records its source.\<close>

definition fs_same_stem :: filesystem where
  "fs_same_stem = [([''input''], Dir), ([''input'', ''a.bmp''], File ''bmp''),
      ([''input'', ''a.jpg''], File ''jpeg''), ([''output''], Dir), ([''output'', ''images''], Dir)]"

definition labelling_env :: environment where
  "labelling_env =
     \<lparr>polls = (\<lambda>p. [Size 9, Size 9, Size 9, Size 9]),
      pil = (\<lambda>src out. Saved (name src)),
      run_process = (\<lambda>cmd. BinaryNotFound)\<rparr>"

text \<open>The event the observer delivers for a file.\<close>

definition file_event :: "path \<Rightarrow> event" where
  "file_event p = \<lparr>is_directory = False, src_path = p\<rparr>"

section \<open>Properties of the stability prober\<close>

lemma run_at_shorter: "run_at m prev xs \<Longrightarrow> n \<le> m \<Longrightarrow> run_at n prev xs"
proof (induction m prev xs arbitrary: n rule: run_at.induct)
  case (3 m prev x xs)
  then show ?case by (cases n) auto
qed auto

lemma run_at_nat_step:
  "0 < d \<Longrightarrow> run_at (nat d) prev (x # xs) = (x = prev \<and> 0 < x \<and> run_at (nat (d - 1)) x xs)"
proof -
  assume "0 < d"
  then have "nat d = Suc (nat (d - 1))" by simp
  then show ?thesis by (metis run_at.simps(3))
qed

lemma run_at_nat_nil: "0 < d \<Longrightarrow> run_at (nat d) prev [] = False"
proof -
  assume "0 < d"
  then have "nat d = Suc (nat (d - 1))" by simp
  then show ?thesis by (metis run_at.simps(2))
qed

lemma run_at_positive: "run_at n prev xs \<Longrightarrow> 0 < n \<Longrightarrow> \<exists>x. x \<in> set xs \<and> 0 < x"
  by (induction n prev xs rule: run_at.induct) auto

lemma has_stable_run_positive: "has_stable_run n xs \<Longrightarrow> 0 < n \<Longrightarrow> \<exists>x. x \<in> set xs \<and> 0 < x"
proof (induction xs)
  case (Cons a xs)
  then show ?case using run_at_positive[of n a xs] by auto
qed simp

text \<open>A stable run of \<open>n\<close> observations is a block of \<open>n + 1\<close> equal sizes greater than zero.\<close>

lemma run_at_replicate:
  "run_at n prev xs = ((\<exists>post. xs = replicate n prev @ post) \<and> (n = 0 \<or> 0 < prev))"
proof (induction n prev xs rule: run_at.induct)
  case (3 n prev x xs)
  then show ?case by (cases n) auto
qed auto

lemma has_stable_run_block:
  "0 < n \<Longrightarrow>
   has_stable_run n xs = (\<exists>pre s post. xs = pre @ replicate (Suc n) s @ post \<and> 0 < s)"
proof (induction xs)
  case Nil
  then show ?case by simp
next
  case (Cons x xs)
  have "(\<exists>pre s post. x # xs = pre @ replicate (Suc n) s @ post \<and> 0 < s) =
        ((\<exists>post. xs = replicate n x @ post \<and> 0 < x) \<or>
         (\<exists>pre s post. xs = pre @ replicate (Suc n) s @ post \<and> 0 < s))"
  proof
    assume "\<exists>pre s post. x # xs = pre @ replicate (Suc n) s @ post \<and> 0 < s"
    then obtain pre s post where e: "x # xs = pre @ replicate (Suc n) s @ post" and s: "0 < s" by blast
    show "(\<exists>post. xs = replicate n x @ post \<and> 0 < x) \<or>
         (\<exists>pre s post. xs = pre @ replicate (Suc n) s @ post \<and> 0 < s)"
    proof (cases pre)
      case Nil
      then have "x = s" "xs = replicate n s @ post" using e by simp_all
      then show ?thesis using s by blast
    next
      case (Cons a pre')
      then have "xs = pre' @ replicate (Suc n) s @ post" using e by simp
      then show ?thesis using s by blast
    qed
  next
    assume "(\<exists>post. xs = replicate n x @ post \<and> 0 < x) \<or>
         (\<exists>pre s post. xs = pre @ replicate (Suc n) s @ post \<and> 0 < s)"
    then show "\<exists>pre s post. x # xs = pre @ replicate (Suc n) s @ post \<and> 0 < s"
    proof
      assume "\<exists>post. xs = replicate n x @ post \<and> 0 < x"
      then obtain post where "xs = replicate n x @ post" "0 < x" by blast
      then have "x # xs = [] @ replicate (Suc n) x @ post \<and> 0 < x" by simp
      then show ?thesis by blast
    next
      assume "\<exists>pre s post. xs = pre @ replicate (Suc n) s @ post \<and> 0 < s"
      then obtain pre s post where "xs = pre @ replicate (Suc n) s @ post" "0 < s" by blast
      then have "x # xs = (x # pre) @ replicate (Suc n) s @ post \<and> 0 < s" by simp
      then show ?thesis by blast
    qed
  qed
  then show ?case using Cons by (auto simp add: run_at_replicate)
qed

lemma fst_wait_loop_Size:
  "fst (wait_loop p k lst cnt (Size s # tr)) =
     (if s = lst \<and> 0 < s then
        (if k \<le> cnt + 1 then Inr True else fst (wait_loop p k lst (cnt + 1) tr))
      else fst (wait_loop p k s 0 tr))"
  by (simp add: case_prod_beta)

lemma fst_wait_loop_Missing:
  "fst (wait_loop p k lst cnt (Missing # tr)) = fst (wait_loop p k lst cnt tr)"
  by (simp add: case_prod_beta)

lemma wait_loop_true_iff:
  "0 \<le> cnt \<Longrightarrow> cnt < k \<Longrightarrow>
   (fst (wait_loop p k lst cnt tr) = Inr True) =
   (run_at (nat (k - cnt)) lst (sizes tr) \<or> has_stable_run (nat k) (lst # sizes tr))"
proof (induction tr arbitrary: lst cnt)
  case Nil
  then show ?case by (simp add: run_at_nat_nil)
next
  case (Cons q tr)
  have k: "0 < k" "0 < k - cnt" using Cons.prems by simp_all
  show ?case
  proof (cases q)
    case (Size s)
    show ?thesis
    proof (cases "s = lst \<and> 0 < s")
      case True
      show ?thesis
      proof (cases "k \<le> cnt + 1")
        case True
        then have "k - cnt = 1" using Cons.prems by simp
        then show ?thesis using Size \<open>s = lst \<and> 0 < s\<close> True by simp
      next
        case False
        have ih: "(fst (wait_loop p k lst (cnt + 1) tr) = Inr True) =
          (run_at (nat (k - cnt - 1)) lst (sizes tr) \<or> has_stable_run (nat k) (lst # sizes tr))"
          using Cons.IH[of "cnt + 1" lst] Cons.prems False by (simp add: algebra_simps)
        have sh: "run_at (nat (k - 1)) lst (sizes tr) \<Longrightarrow> run_at (nat (k - cnt - 1)) lst (sizes tr)"
          using Cons.prems by (auto intro: run_at_shorter)
        have "(fst (wait_loop p k lst cnt (q # tr)) = Inr True) =
              (fst (wait_loop p k lst (cnt + 1) tr) = Inr True)"
          using Size True False by (simp add: fst_wait_loop_Size del: wait_loop.simps(2,4))
        moreover have "run_at (nat (k - cnt)) lst (sizes (q # tr)) = run_at (nat (k - cnt - 1)) lst (sizes tr)"
          using Size True k by (simp add: run_at_nat_step)
        moreover have "has_stable_run (nat k) (lst # sizes (q # tr)) =
              (run_at (nat (k - 1)) lst (sizes tr) \<or> has_stable_run (nat k) (lst # sizes tr))"
          using Size True k by (simp add: run_at_nat_step)
        ultimately show ?thesis using ih sh by blast
      qed
    next
      case False
      have ih: "(fst (wait_loop p k s 0 tr) = Inr True) =
          (run_at (nat k) s (sizes tr) \<or> has_stable_run (nat k) (s # sizes tr))"
        using Cons.IH[of 0 s] Cons.prems by simp
      have "(fst (wait_loop p k lst cnt (q # tr)) = Inr True) = (fst (wait_loop p k s 0 tr) = Inr True)"
        using Size False by (auto simp add: fst_wait_loop_Size simp del: wait_loop.simps(2,4))
      moreover have "run_at (nat (k - cnt)) lst (sizes (q # tr)) = False"
        using Size False k by (auto simp add: run_at_nat_step)
      moreover have "has_stable_run (nat k) (lst # sizes (q # tr)) = has_stable_run (nat k) (s # sizes tr)"
        using Size False k by (auto simp add: run_at_nat_step)
      ultimately show ?thesis using ih by simp
    qed
  next
    case Missing
    then show ?thesis using Cons by (simp add: case_prod_beta)
  next
    case StatError
    then show ?thesis using k by (simp add: run_at_nat_nil)
  qed
qed

lemma wait_loop_raises_iff:
  "(\<exists>e. fst (wait_loop p k lst cnt tr) = Inl e) \<Longrightarrow> StatError \<in> set tr"
proof (induction tr arbitrary: lst cnt)
  case (Cons q tr)
  then show ?case
    by (cases q) (auto simp add: fst_wait_loop_Size fst_wait_loop_Missing simp del: wait_loop.simps(2,4) split: if_splits)
qed simp

lemma wait_loop_false_no_error:
  "fst (wait_loop p k lst cnt tr) = Inr False \<Longrightarrow> StatError \<notin> set tr"
proof (induction tr arbitrary: lst cnt)
  case (Cons q tr)
  then show ?case
    by (cases q) (auto simp add: fst_wait_loop_Size fst_wait_loop_Missing simp del: wait_loop.simps(2,4) split: if_splits)
qed simp

lemma wait_loop_skips_missing:
  "fst (wait_loop p k lst cnt tr) = fst (wait_loop p k lst cnt (filter (\<lambda>q. q \<noteq> Missing) tr))"
proof (induction tr arbitrary: lst cnt)
  case (Cons q tr)
  then show ?case
    by (cases q) (simp_all add: fst_wait_loop_Size fst_wait_loop_Missing del: wait_loop.simps(2,4))
qed simp

lemma wait_loop_true_observations:
  "fst (wait_loop p k lst cnt tr) = Inr True \<Longrightarrow> 0 \<le> cnt \<Longrightarrow> k - cnt \<le> int (length (sizes tr))"
proof (induction tr arbitrary: lst cnt)
  case (Cons q tr)
  show ?case
  proof (cases q)
    case (Size s)
    show ?thesis
    proof (cases "s = lst \<and> 0 < s")
      case True
      show ?thesis
      proof (cases "k \<le> cnt + 1")
        case True
        then show ?thesis using Size by simp
      next
        case False
        then have "fst (wait_loop p k lst (cnt + 1) tr) = Inr True"
          using Cons.prems Size True by (simp add: fst_wait_loop_Size del: wait_loop.simps(2,4))
        then have "k - (cnt + 1) \<le> int (length (sizes tr))"
          using Cons.IH[of lst "cnt + 1"] Cons.prems by simp
        then show ?thesis using Size by simp
      qed
    next
      case False
      then have "fst (wait_loop p k s 0 tr) = Inr True"
        using Cons.prems Size by (auto simp add: fst_wait_loop_Size simp del: wait_loop.simps(2,4) split: if_splits)
      then have "k - 0 \<le> int (length (sizes tr))"
        using Cons.IH[of s 0] by simp
      then show ?thesis using Size Cons.prems by simp
    qed
  next
    case Missing
    then show ?thesis using Cons by (simp add: fst_wait_loop_Missing del: wait_loop.simps(2,4))
  next
    case StatError
    then show ?thesis using Cons.prems by simp
  qed
qed simp

lemma wait_loop_first_observation:
  "fst (wait_loop p k lst 0 tr) = Inr True \<Longrightarrow> lst \<le> 0 \<Longrightarrow> k + 1 \<le> int (length (sizes tr))"
proof (induction tr)
  case (Cons q tr)
  show ?case
  proof (cases q)
    case (Size s)
    then have "fst (wait_loop p k s 0 tr) = Inr True"
      using Cons.prems by (auto simp add: fst_wait_loop_Size simp del: wait_loop.simps(2,4) split: if_splits)
    then have "k - 0 \<le> int (length (sizes tr))"
      by (rule wait_loop_true_observations) simp
    then show ?thesis using Size by simp
  next
    case Missing
    then show ?thesis using Cons by (simp add: fst_wait_loop_Missing del: wait_loop.simps(2,4))
  next
    case StatError
    then show ?thesis using Cons.prems by simp
  qed
qed simp

lemma wait_loop_true_sleeps:
  "fst (wait_loop p k lst cnt tr) = Inr True \<Longrightarrow> 0 \<le> cnt \<Longrightarrow>
   k - cnt - 1 \<le> int (count_list (snd (wait_loop p k lst cnt tr)) Sleep)"
proof (induction tr arbitrary: lst cnt)
  case (Cons q tr)
  show ?case
  proof (cases q)
    case (Size s)
    show ?thesis
    proof (cases "s = lst \<and> 0 < s")
      case True
      show ?thesis
      proof (cases "k \<le> cnt + 1")
        case True
        then show ?thesis using Size by simp
      next
        case False
        then have "fst (wait_loop p k lst (cnt + 1) tr) = Inr True"
          using Cons.prems Size True by (simp add: fst_wait_loop_Size del: wait_loop.simps(2,4))
        then have "k - (cnt + 1) - 1 \<le> int (count_list (snd (wait_loop p k lst (cnt + 1) tr)) Sleep)"
          using Cons.IH[of lst "cnt + 1"] Cons.prems by simp
        then show ?thesis using Size True False by (simp add: case_prod_beta)
      qed
    next
      case False
      then have "fst (wait_loop p k s 0 tr) = Inr True"
        using Cons.prems Size by (auto simp add: fst_wait_loop_Size simp del: wait_loop.simps(2,4) split: if_splits)
      then have "k - 0 - 1 \<le> int (count_list (snd (wait_loop p k s 0 tr)) Sleep)"
        using Cons.IH[of s 0] by simp
      then show ?thesis using Size False Cons.prems by (auto simp add: case_prod_beta)
    qed
  next
    case Missing
    then have "fst (wait_loop p k lst cnt tr) = Inr True"
      using Cons.prems by (simp add: case_prod_beta)
    then have "k - cnt - 1 \<le> int (count_list (snd (wait_loop p k lst cnt tr)) Sleep)"
      using Cons.IH[of lst cnt] Cons.prems by simp
    then show ?thesis using Missing by (simp add: case_prod_beta)
  next
    case StatError
    then show ?thesis using Cons.prems by simp
  qed
qed simp

lemma wait_loop_first_sleeps:
  "fst (wait_loop p k lst 0 tr) = Inr True \<Longrightarrow> lst \<le> 0 \<Longrightarrow>
   k \<le> int (count_list (snd (wait_loop p k lst 0 tr)) Sleep)"
proof (induction tr)
  case (Cons q tr)
  show ?case
  proof (cases q)
    case (Size s)
    then have t: "fst (wait_loop p k s 0 tr) = Inr True"
      using Cons.prems by (auto simp add: fst_wait_loop_Size simp del: wait_loop.simps(2,4) split: if_splits)
    have "k - 0 - 1 \<le> int (count_list (snd (wait_loop p k s 0 tr)) Sleep)"
      using t by (rule wait_loop_true_sleeps) simp
    then show ?thesis using Size Cons.prems by (auto simp add: case_prod_beta)
  next
    case Missing
    then have "fst (wait_loop p k lst 0 tr) = Inr True"
      using Cons.prems by (simp add: case_prod_beta)
    then have "k \<le> int (count_list (snd (wait_loop p k lst 0 tr)) Sleep)"
      using Cons.IH Cons.prems by simp
    then show ?thesis using Missing by (simp add: case_prod_beta)
  next
    case StatError
    then show ?thesis using Cons.prems by simp
  qed
qed simp

lemma run_at_sentinel: "0 < d \<Longrightarrow> prev \<le> 0 \<Longrightarrow> run_at (nat d) prev xs = False"
  by (cases xs) (auto simp add: run_at_nat_nil run_at_nat_step)

lemma wait_for_file_ready_true_iff:
  "1 \<le> k \<Longrightarrow> (fst (wait_for_file_ready p k tr) = Inr True) = has_stable_run (nat k) (sizes tr)"
  using wait_loop_true_iff[of 0 k p "- 1" tr] run_at_sentinel[of k "- 1" "sizes tr"]
  by (simp add: wait_for_file_ready_def)

subsection \<open>C6\<close>

text \<open>
  C6 (as amended). A poll that observes a changed size resets the counter of
  consecutive stable checks to zero and records the new size. A poll that finds the
  file missing leaves both the counter and the last seen size as they are: it does not
  count as a stable check and does not reset the counter; it logs, sleeps and polls
  again, so the result of the wait is the one the trace without its missing polls
  gives. When no poll fails with an error other than not-found, the wait raises
  nothing: it returns true or false.
\<close>

theorem wait_missing_poll_is_skipped:
  "(s \<noteq> last_size \<longrightarrow>
      wait_loop p k last_size cnt (Size s # tr) =
        (case wait_loop p k s 0 tr of (r, fx) \<Rightarrow> (r, Sleep # fx)))
   \<and> wait_loop p k last_size cnt (Missing # tr) =
        (case wait_loop p k last_size cnt tr of
           (r, fx) \<Rightarrow> (r, Log DEBUG (FileMissingRetry p) # Sleep # fx))
   \<and> fst (wait_for_file_ready p k tr) =
        fst (wait_for_file_ready p k (filter (\<lambda>q. q \<noteq> Missing) tr))
   \<and> (StatError \<notin> set tr \<longrightarrow> (\<exists>b. fst (wait_for_file_ready p k tr) = Inr b))"
proof -
  have "StatError \<notin> set tr \<longrightarrow> (\<exists>b. fst (wait_for_file_ready p k tr) = Inr b)"
  proof
    assume n: "StatError \<notin> set tr"
    show "\<exists>b. fst (wait_for_file_ready p k tr) = Inr b"
    proof (cases "fst (wait_for_file_ready p k tr)")
      case (Inl e)
      then have "StatError \<in> set tr"
        using wait_loop_raises_iff[of p k "- 1" 0 tr] by (auto simp add: wait_for_file_ready_def)
      then show ?thesis using n by simp
    next
      case (Inr b)
      then show ?thesis by simp
    qed
  qed
  moreover have "fst (wait_for_file_ready p k tr) =
        fst (wait_for_file_ready p k (filter (\<lambda>q. q \<noteq> Missing) tr))"
    unfolding wait_for_file_ready_def by (rule wait_loop_skips_missing)
  ultimately show ?thesis by simp
qed

theorem wait_missing_poll_is_skipped_witness:
  "wait_loop [''in'', ''a.jpg''] 3 5 2 [Size 7, Size 7] = (Inr False, [Sleep, Sleep])
   \<and> wait_loop [''in'', ''a.jpg''] 3 5 2 [Missing, Size 5] =
       (Inr True, [Log DEBUG (FileMissingRetry [''in'', ''a.jpg'']), Sleep])
   \<and> fst (wait_for_file_ready [''in'', ''a.jpg''] 3 [Size 5, Missing, Size 5, Size 5, Missing, Size 5]) =
       fst (wait_for_file_ready [''in'', ''a.jpg''] 3 [Size 5, Size 5, Size 5, Size 5])
   \<and> (\<exists>b. fst (wait_for_file_ready [''in'', ''a.jpg''] 3 [Size 5, Missing, Size 5, Size 5, Missing, Size 5]) = Inr b)"
  using wait_missing_poll_is_skipped[where s = 7 and last_size = 5 and p = "[''in'', ''a.jpg'']"
      and k = 3 and cnt = 2 and tr = "[Size 5, Missing, Size 5, Size 5, Missing, Size 5]"]
  by (simp add: wait_for_file_ready_def)

text \<open>
  C6 as stated fails: the counter is not reset by a missing-file poll. After three
  polls of size 5 the counter is 2; the fourth poll finds the file missing; the fifth
  observes 5 again and the wait returns true, which a counter reset to zero by the
  fourth poll could not give.
\<close>

theorem wait_missing_poll_reset_counterexample:
  "fst (wait_for_file_ready [''in'', ''a.jpg''] 3 [Size 5, Size 5, Size 5, Missing, Size 5]) = Inr True
   \<and> fst (wait_loop [''in'', ''a.jpg''] 3 5 2 [Missing, Size 5]) = Inr True
   \<and> fst (wait_loop [''in'', ''a.jpg''] 3 5 0 [Size 5]) = Inr False"
  by (simp add: wait_for_file_ready_def)

lemma poll_run_at_sizes: "Missing \<notin> set tr \<Longrightarrow> poll_run_at n prev tr = run_at n prev (sizes tr)"
  by (induction n prev tr rule: poll_run_at.induct) auto

lemma has_stable_poll_run_sizes:
  "Missing \<notin> set tr \<Longrightarrow> 0 < n \<Longrightarrow>
   has_stable_poll_run n prev tr = has_stable_run n (prev # sizes tr)"
proof (induction n prev tr rule: has_stable_poll_run.induct)
  case (1 n prev)
  then show ?case by (cases n) auto
next
  case (2 n prev x tr)
  then show ?case using poll_run_at_sizes[of "Size x # tr" n prev] by auto
next
  case (3 n prev tr)
  then show ?case by simp
next
  case (4 n prev tr)
  then show ?case by (cases n) auto
qed

subsection \<open>C7\<close>

text \<open>
  C7 (as amended). For a required number of stable checks of at least one, the wait
  returns true exactly when the sizes it observes, the polls that find the file missing
  left out, contain a run of that many consecutive observations, each unchanged from the
  observation before it and greater than zero; such a run is a block of
  \<open>stable_checks + 1\<close> equal sizes greater than zero. When no poll finds the file
  missing, this is a run of consecutive polls. The wait returns false exactly when the
  polls end (the deadline passes) with no such run and no stat error. A file whose size
  is always zero never yields true.
\<close>

theorem wait_true_iff_stable_run:
  assumes "1 \<le> stable_checks"
  shows "(fst (wait_for_file_ready p stable_checks tr) = Inr True) =
           has_stable_run (nat stable_checks) (sizes tr)
       \<and> (Missing \<notin> set tr \<longrightarrow>
            (fst (wait_for_file_ready p stable_checks tr) = Inr True) =
              has_stable_poll_run (nat stable_checks) (- 1) tr)
       \<and> (fst (wait_for_file_ready p stable_checks tr) = Inr False) =
           (StatError \<notin> set tr \<and> \<not> has_stable_run (nat stable_checks) (sizes tr))
       \<and> (set (sizes tr) \<subseteq> {0} \<longrightarrow> fst (wait_for_file_ready p stable_checks tr) \<noteq> Inr True)
       \<and> has_stable_run (nat stable_checks) (sizes tr) =
           (\<exists>pre s post. sizes tr = pre @ replicate (Suc (nat stable_checks)) s @ post \<and> 0 < s)"
proof -
  let ?r = "fst (wait_for_file_ready p stable_checks tr)"
  have t: "(?r = Inr True) = has_stable_run (nat stable_checks) (sizes tr)"
    using assms by (rule wait_for_file_ready_true_iff)
  have m: "Missing \<notin> set tr \<longrightarrow> (?r = Inr True) = has_stable_poll_run (nat stable_checks) (- 1) tr"
  proof
    assume n: "Missing \<notin> set tr"
    have "has_stable_poll_run (nat stable_checks) (- 1) tr =
        has_stable_run (nat stable_checks) (- 1 # sizes tr)"
      using n assms by (intro has_stable_poll_run_sizes) simp_all
    also have "\<dots> = has_stable_run (nat stable_checks) (sizes tr)"
      using assms run_at_sentinel[of stable_checks "- 1" "sizes tr"] by simp
    finally show "(?r = Inr True) = has_stable_poll_run (nat stable_checks) (- 1) tr"
      using t by simp
  qed
  have f: "(?r = Inr False) = (StatError \<notin> set tr \<and> \<not> has_stable_run (nat stable_checks) (sizes tr))"
  proof
    assume a: "?r = Inr False"
    then have "StatError \<notin> set tr"
      using wait_loop_false_no_error[of p stable_checks "- 1" 0 tr]
      by (simp add: wait_for_file_ready_def)
    moreover have "\<not> has_stable_run (nat stable_checks) (sizes tr)" using a t by simp
    ultimately show "StatError \<notin> set tr \<and> \<not> has_stable_run (nat stable_checks) (sizes tr)" by simp
  next
    assume a: "StatError \<notin> set tr \<and> \<not> has_stable_run (nat stable_checks) (sizes tr)"
    show "?r = Inr False"
    proof (cases ?r)
      case (Inl e)
      then have "StatError \<in> set tr"
        using wait_loop_raises_iff[of p stable_checks "- 1" 0 tr]
        by (auto simp add: wait_for_file_ready_def)
      then show ?thesis using a by simp
    next
      case (Inr b)
      then show ?thesis using a t by (cases b) simp_all
    qed
  qed
  have z: "set (sizes tr) \<subseteq> {0} \<longrightarrow> ?r \<noteq> Inr True"
  proof
    assume s: "set (sizes tr) \<subseteq> {0}"
    show "?r \<noteq> Inr True"
    proof
      assume "?r = Inr True"
      then have "has_stable_run (nat stable_checks) (sizes tr)" using t by simp
      then obtain x where "x \<in> set (sizes tr)" "0 < x"
        using has_stable_run_positive[of "nat stable_checks" "sizes tr"] assms by auto
      then show False using s by auto
    qed
  qed
  have b: "has_stable_run (nat stable_checks) (sizes tr) =
           (\<exists>pre s post. sizes tr = pre @ replicate (Suc (nat stable_checks)) s @ post \<and> 0 < s)"
    using assms by (intro has_stable_run_block) simp
  show ?thesis using t m f z b by blast
qed

theorem wait_true_iff_stable_run_witness:
  "(1::int) \<le> 3
   \<and> fst (wait_for_file_ready [''input'', ''a.jpg''] 3 [Size 4, Size 5, Size 5, Size 5, Size 5]) = Inr True
   \<and> has_stable_run (nat 3) (sizes [Size 4, Size 5, Size 5, Size 5, Size 5])
   \<and> has_stable_poll_run (nat 3) (- 1) [Size 4, Size 5, Size 5, Size 5, Size 5]
   \<and> fst (wait_for_file_ready [''input'', ''a.jpg''] 3 [Size 0, Size 0, Size 0, Size 0, Size 0]) = Inr False"
proof -
  have h: "(1::int) \<le> 3" by simp
  have n: "Missing \<notin> set [Size 4, Size 5, Size 5, Size 5, Size 5]" by simp
  have z: "set (sizes [Size 0, Size 0, Size 0, Size 0, Size 0]) \<subseteq> {0}" by simp
  have e: "StatError \<notin> set [Size 0, Size 0, Size 0, Size 0, Size 0]" by simp
  have r: "has_stable_run (nat 3) (sizes [Size 4, Size 5, Size 5, Size 5, Size 5])"
    by (simp add: eval_nat_numeral)
  have q: "\<not> has_stable_run (nat 3) (sizes [Size 0, Size 0, Size 0, Size 0, Size 0])"
    by (simp add: eval_nat_numeral)
  note t1 = wait_true_iff_stable_run[OF h, of "[''input'', ''a.jpg'']" "[Size 4, Size 5, Size 5, Size 5, Size 5]"]
  note t2 = wait_true_iff_stable_run[OF h, of "[''input'', ''a.jpg'']" "[Size 0, Size 0, Size 0, Size 0, Size 0]"]
  have a: "fst (wait_for_file_ready [''input'', ''a.jpg''] 3 [Size 4, Size 5, Size 5, Size 5, Size 5]) = Inr True"
    using t1 r by blast
  have b: "has_stable_poll_run (nat 3) (- 1) [Size 4, Size 5, Size 5, Size 5, Size 5]"
    using t1 n a by blast
  have c: "fst (wait_for_file_ready [''input'', ''a.jpg''] 3 [Size 0, Size 0, Size 0, Size 0, Size 0]) = Inr False"
    using t2 e q by blast
  show ?thesis using h a r b c by blast
qed

text \<open>
  C7 as stated fails when a poll finds the file missing inside a run: of the polls
  5, 5, 5, missing, 5 no three consecutive ones each observe an unchanged size, yet the
  wait returns true at the fifth, because the missing poll is skipped and the counter
  goes on from 2.
\<close>

theorem wait_run_across_missing_poll_counterexample:
  "fst (wait_for_file_ready [''input'', ''a.jpg''] 3 [Size 5, Size 5, Size 5, Missing, Size 5]) = Inr True
   \<and> \<not> has_stable_poll_run 3 (- 1) [Size 5, Size 5, Size 5, Missing, Size 5]"
  by code_simp

subsection \<open>C10\<close>

text \<open>
  C10. The first successful observation only records the size: whatever it is, the
  counter stays at zero. So when the wait returns true, the polls before it hold at
  least \<open>stable_checks + 1\<close> successful size observations, and the wait has slept at
  least \<open>stable_checks\<close> times, once between two polls.
\<close>

theorem wait_true_needs_observations:
  assumes "fst (wait_for_file_ready p stable_checks tr) = Inr True"
  shows "stable_checks + 1 \<le> int (length (sizes tr))
       \<and> stable_checks \<le> int (count_list (snd (wait_for_file_ready p stable_checks tr)) Sleep)
       \<and> wait_for_file_ready p stable_checks (Size s # tr') =
           (case wait_loop p stable_checks s 0 tr' of (r, fx) \<Rightarrow> (r, Sleep # fx))"
proof -
  have a: "fst (wait_loop p stable_checks (- 1) 0 tr) = Inr True"
    using assms by (simp add: wait_for_file_ready_def)
  have "stable_checks + 1 \<le> int (length (sizes tr))"
    using a by (rule wait_loop_first_observation) simp
  moreover have "stable_checks \<le> int (count_list (snd (wait_loop p stable_checks (- 1) 0 tr)) Sleep)"
    using a by (rule wait_loop_first_sleeps) simp
  moreover have "wait_for_file_ready p stable_checks (Size s # tr') =
           (case wait_loop p stable_checks s 0 tr' of (r, fx) \<Rightarrow> (r, Sleep # fx))"
    by (cases "s = - 1") (simp_all add: wait_for_file_ready_def)
  ultimately show ?thesis by (simp add: wait_for_file_ready_def)
qed

theorem wait_true_needs_observations_witness:
  "fst (wait_for_file_ready [''in'', ''a.jpg''] 3 [Size 5, Size 5, Size 5, Size 5]) = Inr True
   \<and> (3::int) + 1 \<le> int (length (sizes [Size 5, Size 5, Size 5, Size 5]))
   \<and> snd (wait_for_file_ready [''in'', ''a.jpg''] 3 [Size 5, Size 5, Size 5, Size 5]) = [Sleep, Sleep, Sleep]"
proof -
  have h: "fst (wait_for_file_ready [''in'', ''a.jpg''] 3 [Size 5, Size 5, Size 5, Size 5]) = Inr True"
    by (simp add: wait_for_file_ready_def)
  show ?thesis
    using h wait_true_needs_observations[OF h, of 5 "[]"]
    by (simp add: wait_for_file_ready_def)
qed

section \<open>Suffixes outside ASCII\<close>

text \<open>
  The suffix \<^verbatim>\<open>.mKv\<close> written with the Kelvin sign (\<^verbatim>\<open>U+212A\<close>, three bytes in UTF-8) is
  accepted as a video whenever the interpreter lower-cases it to \<^verbatim>\<open>.mkv\<close>, as Python does.
\<close>

lemma kelvin_sign_suffix_is_accepted:
  assumes "unicode_lower py (''.m'' @ [CHR 0xE2, CHR 0x84, CHR 0xAA] @ ''v'') = ''.mkv''"
  shows "accepted py example_config [''input'', ''a.m'' @ [CHR 0xE2, CHR 0x84, CHR 0xAA] @ ''v'']"
proof -
  have s: "suffix [''input'', ''a.m'' @ [CHR 0xE2, CHR 0x84, CHR 0xAA] @ ''v''] =
      ''.m'' @ [CHR 0xE2, CHR 0x84, CHR 0xAA] @ ''v''"
    by code_simp
  have n: "\<not> list_all is_ascii (''.m'' @ [CHR 0xE2, CHR 0x84, CHR 0xAA] @ ''v'')"
    by code_simp
  have "''.mkv'' \<in> video_exts example_config"
    by (simp add: example_config_def VIDEO_EXTENSIONS_def)
  moreover have "lower py (''.m'' @ [CHR 0xE2, CHR 0x84, CHR 0xAA] @ ''v'') = ''.mkv''"
    using assms by (simp only: lower_def n if_False)
  ultimately show ?thesis by (simp only: accepted_def s simp_thms)
qed

section \<open>Properties of the file system operations\<close>

lemma path_exists_update: "path_exists (AList.update k v fs) q = (q = k \<or> path_exists fs q)"
  by (simp add: path_exists_def update_conv')


lemma path_exists_delete: "path_exists (AList.delete k fs) q = (q \<noteq> k \<and> path_exists fs q)"
  by (simp add: path_exists_def delete_conv')


lemma mkdirs_is_file: "mkdirs fs qs = Inr fs' \<Longrightarrow> is_file fs' q = is_file fs q"
proof (induction qs arbitrary: fs)
  case (Cons a qs)
  show ?case
  proof (cases "map_of fs a")
    case None
    have "mkdirs (AList.update a Dir fs) qs = Inr fs'" using Cons.prems(1) None by simp
    then have "is_file fs' q = is_file (AList.update a Dir fs) q" by (rule Cons.IH)
    then show ?thesis using None by (auto simp add: is_file_def update_conv')
  next
    case (Some n)
    then show ?thesis using Cons by (cases n) auto
  qed
qed simp



lemma keeps_path_exists:
  "map_of fs' q = map_of fs q \<Longrightarrow> path_exists fs' q = path_exists fs q"
  by (simp add: path_exists_def)

lemma mkdirs_error: "mkdirs fs qs = Inl e \<Longrightarrow> e = MkdirError"
proof (induction qs arbitrary: fs)
  case (Cons a qs)
  then show ?case by (auto split: option.splits node.splits)
qed simp

lemma ensure_directory_error: "ensure_directory fs d = Inl e \<Longrightarrow> e = MkdirError"
  by (auto simp add: ensure_directory_def split: if_splits dest: mkdirs_error)




section \<open>Properties of the converters\<close>





lemma convert_image_check_then_save:
  "convert_image_to_png env src dest_dir fs =
     (if path_exists fs (dest_dir @ [stem src @ ''.png''])
      then (fs, [Log INFO (ImageOutputExists (dest_dir @ [stem src @ ''.png'']))])
      else convert_image_after_check env src (dest_dir @ [stem src @ ''.png'']) fs)"
  by (simp add: convert_image_to_png_def convert_image_after_check_def Let_def)





section \<open>Properties of the bulk pass\<close>

lemma process_existing_file_noop:
  "\<not> (is_file fs p \<and> accepted py cfg p) \<Longrightarrow> process_existing_file py cfg env p fs = (None, fs, [])"
  by (auto simp add: process_existing_file_def accepted_def Let_def)














section \<open>A second bulk pass\<close>

lemma is_file_keeps: "map_of fs' q = map_of fs q \<Longrightarrow> is_file fs' q = is_file fs q"
  by (simp add: is_file_def)




text \<open>New regular files appear only in the two output directories.\<close>

lemma mkdirs_no_new_file: "mkdirs fs qs = Inr fs' \<Longrightarrow> is_file fs' q \<Longrightarrow> is_file fs q"
  using mkdirs_is_file by simp





subsection \<open>C3\<close>




text \<open>
  A failed image conversion that leaves a partial file at the destination is not
  attempted again: the next pass finds the file and skips the source.
\<close>

lemma failed_image_with_partial_output_is_skipped:
  "process_existing_files py example_config partial_png_env fs_corrupt =
       (None, fs_corrupt @ [([''output'', ''images'', ''a.png''], File ''part'')],
        [Log INFO (ProcessingExisting ''a.jpg''),
         PilConvert [''input'', ''a.jpg''] [''output'', ''images'', ''a.png''],
         Log ERROR (FailedToConvertImage [''input'', ''a.jpg''])])
   \<and> process_existing_files py example_config partial_png_env
         (fs_corrupt @ [([''output'', ''images'', ''a.png''], File ''part'')]) =
       (None, fs_corrupt @ [([''output'', ''images'', ''a.png''], File ''part'')],
        [Log INFO (ProcessingExisting ''a.jpg''),
         Log INFO (ImageOutputExists [''output'', ''images'', ''a.png''])])"
  by code_simp

text \<open>
  Two live tasks whose sources have the same stem. The handler starts both, as the
  in-flight set holds source paths; both find no file at the destination; then the
  second save replaces what the first wrote. So an existing output is safe from a
  converter only while nothing else writes between its check and its save.
\<close>

lemma concurrent_tasks_overwrite_output:
  "\<not> should_ignore py example_config fs_same_stem [''input'', ''a.bmp'']
   \<and> \<not> should_ignore py example_config fs_same_stem [''input'', ''a.jpg'']
   \<and> started_by py example_config initial
         [Created (file_event [''input'', ''a.bmp'']) fs_same_stem,
          Created (file_event [''input'', ''a.jpg'']) fs_same_stem] =
       [[[''input'', ''a.bmp'']], [[''input'', ''a.jpg'']]]
   \<and> [''output'', ''images''] @ [stem [''input'', ''a.bmp''] @ ''.png''] = [''output'', ''images'', ''a.png'']
   \<and> [''output'', ''images''] @ [stem [''input'', ''a.jpg''] @ ''.png''] = [''output'', ''images'', ''a.png'']
   \<and> \<not> path_exists fs_same_stem [''output'', ''images'', ''a.png'']
   \<and> fst (convert_image_after_check labelling_env [''input'', ''a.bmp''] [''output'', ''images'', ''a.png'']
         fs_same_stem) =
       fs_same_stem @ [([''output'', ''images'', ''a.png''], File ''a.bmp'')]
   \<and> fst (convert_image_after_check labelling_env [''input'', ''a.jpg''] [''output'', ''images'', ''a.png'']
         (fs_same_stem @ [([''output'', ''images'', ''a.png''], File ''a.bmp'')])) =
       fs_same_stem @ [([''output'', ''images'', ''a.png''], File ''a.jpg'')]"
  by code_simp

subsection \<open>C8\<close>

text \<open>
  When the transcoder is run (the destination does not exist yet), exits with a nonzero
  status and its captured stderr is text, the conversion logs an error that carries the
  stderr, stripped; whatever the process wrote at the destination is deleted, so no file
  is left there and the file system is as it was; and the function returns normally.
\<close>

lemma ffmpeg_failure_with_text_removes_partial_output:
  assumes "\<not> path_exists fs (dest_dir @ [stem src @ ''.mp4''])"
    and "run_process env (ffmpeg_cmd bin crf preset src (dest_dir @ [stem src @ ''.mp4''])) =
           Exited rc err written"
    and "rc \<noteq> 0"
  shows "fst (convert_video_to_mp4 py env src dest_dir bin crf preset fs) = None
       \<and> snd (snd (convert_video_to_mp4 py env src dest_dir bin crf preset fs)) =
           [Log DEBUG (RunningFfmpeg (ffmpeg_cmd bin crf preset src (dest_dir @ [stem src @ ''.mp4'']))),
            Subprocess (ffmpeg_cmd bin crf preset src (dest_dir @ [stem src @ ''.mp4''])),
            Log ERROR (FfmpegFailed src (strip py err))]
       \<and> \<not> path_exists (fst (snd (convert_video_to_mp4 py env src dest_dir bin crf preset fs)))
             (dest_dir @ [stem src @ ''.mp4''])
       \<and> map_of (fst (snd (convert_video_to_mp4 py env src dest_dir bin crf preset fs))) = map_of fs"
proof (cases written)
  case None
  then show ?thesis using assms by (simp add: convert_video_to_mp4_def Let_def)
next
  case (Some c)
  have "(map_of fs)(dest_dir @ [stem src @ ''.mp4''] := None) = map_of fs"
    using assms(1) by (auto simp add: path_exists_def)
  then show ?thesis
    using assms Some
    by (simp add: convert_video_to_mp4_def Let_def path_exists_update path_exists_delete
        delete_conv' update_conv')
qed

lemma ffmpeg_failure_with_text_example:
  "convert_video_to_mp4 py invalid_codec_env [''input'', ''a.mp4''] [''output'', ''videos'']
       ''ffmpeg'' ''23'' ''medium'' fs_videos =
     (None, fs_videos,
      [Log DEBUG (RunningFfmpeg [''ffmpeg'', ''-y'', ''-i'', ''/input/a.mp4'', ''-c:v'', ''libx264'',
         ''-preset'', ''medium'', ''-crf'', ''23'', ''-c:a'', ''aac'', ''-b:a'', ''192k'',
         ''/output/videos/a.mp4'']),
       Subprocess [''ffmpeg'', ''-y'', ''-i'', ''/input/a.mp4'', ''-c:v'', ''libx264'',
         ''-preset'', ''medium'', ''-crf'', ''23'', ''-c:a'', ''aac'', ''-b:a'', ''192k'',
         ''/output/videos/a.mp4''],
       Log ERROR (FfmpegFailed [''input'', ''a.mp4''] ''invalid codec'')])"
  by code_simp

text \<open>
  C8 fails when the captured stderr is not text. The transcoder exits with status 1
  after it has written a partial output, and its stderr holds a byte that the encoding of
  the locale cannot decode. \<^verbatim>\<open>subprocess.run\<close> raises \<^verbatim>\<open>UnicodeDecodeError\<close> while it reads
  the stream, before it looks at the exit status; neither \<^verbatim>\<open>except\<close> clause catches it.
  So no error is logged, the partial output stays at the destination, and the exception
  leaves the converter. In the bulk pass it ends the pass before the next file, and a
  later pass takes the partial file for the finished output and skips the source.
\<close>

theorem ffmpeg_undecodable_stderr_leaves_partial_output:
  "convert_video_to_mp4 py undecodable_env [''input'', ''a.mp4''] [''output'', ''videos'']
       ''ffmpeg'' ''23'' ''medium'' fs_videos =
     (Some StderrDecodeError,
      fs_videos @ [([''output'', ''videos'', ''a.mp4''], File ''partial'')],
      [Log DEBUG (RunningFfmpeg [''ffmpeg'', ''-y'', ''-i'', ''/input/a.mp4'', ''-c:v'', ''libx264'',
         ''-preset'', ''medium'', ''-crf'', ''23'', ''-c:a'', ''aac'', ''-b:a'', ''192k'',
         ''/output/videos/a.mp4'']),
       Subprocess [''ffmpeg'', ''-y'', ''-i'', ''/input/a.mp4'', ''-c:v'', ''libx264'',
         ''-preset'', ''medium'', ''-crf'', ''23'', ''-c:a'', ''aac'', ''-b:a'', ''192k'',
         ''/output/videos/a.mp4'']])
   \<and> is_file (fst (snd (convert_video_to_mp4 py undecodable_env [''input'', ''a.mp4'']
         [''output'', ''videos''] ''ffmpeg'' ''23'' ''medium'' fs_videos))) [''output'', ''videos'', ''a.mp4'']
   \<and> process_existing_files py example_config undecodable_env fs_videos =
     (Some StderrDecodeError,
      fs_videos @ [([''output'', ''videos'', ''a.mp4''], File ''partial'')],
      [Log INFO (ProcessingExisting ''a.mp4''),
       Log DEBUG (RunningFfmpeg [''ffmpeg'', ''-y'', ''-i'', ''/input/a.mp4'', ''-c:v'', ''libx264'',
         ''-preset'', ''medium'', ''-crf'', ''23'', ''-c:a'', ''aac'', ''-b:a'', ''192k'',
         ''/output/videos/a.mp4'']),
       Subprocess [''ffmpeg'', ''-y'', ''-i'', ''/input/a.mp4'', ''-c:v'', ''libx264'',
         ''-preset'', ''medium'', ''-crf'', ''23'', ''-c:a'', ''aac'', ''-b:a'', ''192k'',
         ''/output/videos/a.mp4'']])
   \<and> process_existing_file py example_config working_env [''input'', ''a.mp4'']
         (fs_videos @ [([''output'', ''videos'', ''a.mp4''], File ''partial'')]) =
     (None, fs_videos @ [([''output'', ''videos'', ''a.mp4''], File ''partial'')],
      [Log INFO (ProcessingExisting ''a.mp4''),
       Log INFO (VideoOutputExists [''output'', ''videos'', ''a.mp4''])])"
  by code_simp

section \<open>A missing transcoder binary\<close>

lemma wait_loop_effects:
  "e \<in> set (snd (wait_loop p k lst cnt tr)) \<Longrightarrow> e = Sleep \<or> e = Log DEBUG (FileMissingRetry p)"
proof (induction tr arbitrary: lst cnt)
  case (Cons q tr)
  then show ?case
    by (cases q) (auto simp add: case_prod_beta split: if_splits)
qed simp

lemma wait_loop_raises_error:
  "fst (wait_loop p k lst cnt tr) = Inl e \<Longrightarrow> e = StatOSError"
proof (induction tr arbitrary: lst cnt)
  case (Cons q tr)
  then show ?case
    by (cases q) (auto simp add: case_prod_beta split: if_splits)
qed simp

lemma wait_effects_not_found:
  "count_list (snd (wait_for_file_ready p k tr)) (Log ERROR FfmpegNotFound) = 0
   \<and> filter is_subprocess (snd (wait_for_file_ready p k tr)) = []"
proof -
  have "\<forall>e \<in> set (snd (wait_for_file_ready p k tr)). e = Sleep \<or> e = Log DEBUG (FileMissingRetry p)"
    using wait_loop_effects by (auto simp add: wait_for_file_ready_def)
  then have "Log ERROR FfmpegNotFound \<notin> set (snd (wait_for_file_ready p k tr))"
    and "\<forall>e \<in> set (snd (wait_for_file_ready p k tr)). \<not> is_subprocess e"
    by auto
  then show ?thesis by (simp add: filter_empty_conv count_list_0_iff)
qed

lemma convert_image_not_found:
  "convert_image_to_png env src dest_dir fs = (fs', fx) \<Longrightarrow>
   count_list fx (Log ERROR FfmpegNotFound) = 0 \<and> filter is_subprocess fx = []"
  by (auto simp add: convert_image_to_png_def Let_def split: if_splits pil_result.splits)

lemma convert_video_not_found:
  assumes "\<forall>cmd. run_process env cmd = BinaryNotFound"
    and "convert_video_to_mp4 py env src dest_dir bin crf preset fs = (r, fs', fx)"
  shows "r = None \<and> count_list fx (Log ERROR FfmpegNotFound) = length (filter is_subprocess fx)"
  using assms by (auto simp add: convert_video_to_mp4_def Let_def split: if_splits)

lemma process_existing_file_not_found:
  assumes "\<forall>cmd. run_process env cmd = BinaryNotFound"
    and "process_existing_file py cfg env p fs = (r, fs', fx)"
  shows "r \<noteq> Some SubprocessOSError
       \<and> count_list fx (Log ERROR FfmpegNotFound) = length (filter is_subprocess fx)"
proof (cases "is_file fs p \<and> accepted py cfg p")
  case False
  then show ?thesis using assms(2) process_existing_file_noop[of fs p py cfg env] by simp
next
  case True
  show ?thesis
  proof (cases "lower py (suffix p) \<in> image_exts cfg")
    case img: True
    show ?thesis
    proof (cases "ensure_directory fs (image_output_dir cfg)")
      case (Inl e)
      then have "e = MkdirError" by (rule ensure_directory_error)
      then show ?thesis using assms(2) True img Inl by (auto simp add: process_existing_file_def)
    next
      case (Inr fs1)
      obtain fs2 cfx where c: "convert_image_to_png env p (image_output_dir cfg) fs1 = (fs2, cfx)"
        by (cases "convert_image_to_png env p (image_output_dir cfg) fs1")
      then show ?thesis
        using assms(2) True img Inr convert_image_not_found[OF c]
        by (auto simp add: process_existing_file_def)
    qed
  next
    case vid: False
    show ?thesis
    proof (cases "ensure_directory fs (video_output_dir cfg)")
      case (Inl e)
      then have "e = MkdirError" by (rule ensure_directory_error)
      then show ?thesis
        using assms(2) True vid Inl by (auto simp add: process_existing_file_def accepted_def)
    next
      case (Inr fs1)
      obtain r2 fs2 cfx where c: "convert_video_to_mp4 py env p (video_output_dir cfg) (ffmpeg_bin cfg)
          (video_crf cfg) (video_preset cfg) fs1 = (r2, fs2, cfx)"
        by (cases "convert_video_to_mp4 py env p (video_output_dir cfg) (ffmpeg_bin cfg)
          (video_crf cfg) (video_preset cfg) fs1") auto
      then show ?thesis
        using assms(2) True vid Inr convert_video_not_found[OF assms(1) c]
        by (auto simp add: process_existing_file_def accepted_def)
    qed
  qed
qed

lemma process_files_not_found:
  assumes "\<forall>cmd. run_process env cmd = BinaryNotFound"
  shows "process_files py cfg env ps fs = (r, fs', fx) \<Longrightarrow>
       r \<noteq> Some SubprocessOSError
       \<and> count_list fx (Log ERROR FfmpegNotFound) = length (filter is_subprocess fx)"
proof (induction ps arbitrary: fs r fs' fx)
  case (Cons p ps)
  obtain r1 fs1 fx1 where s: "process_existing_file py cfg env p fs = (r1, fs1, fx1)"
    by (cases "process_existing_file py cfg env p fs") auto
  have one: "r1 \<noteq> Some SubprocessOSError
       \<and> count_list fx1 (Log ERROR FfmpegNotFound) = length (filter is_subprocess fx1)"
    using assms s by (rule process_existing_file_not_found)
  show ?case
  proof (cases r1)
    case (Some e)
    then show ?thesis using Cons.prems s one by auto
  next
    case None
    obtain r2 fs2 fx2 where t: "process_files py cfg env ps fs1 = (r2, fs2, fx2)"
      by (cases "process_files py cfg env ps fs1") auto
    have "r2 \<noteq> Some SubprocessOSError
       \<and> count_list fx2 (Log ERROR FfmpegNotFound) = length (filter is_subprocess fx2)"
      using t by (rule Cons.IH)
    moreover have "fx = fx1 @ fx2" "r = r2" using Cons.prems s None t by simp_all
    ultimately show ?thesis using one by simp
  qed
qed simp

lemma process_path_try_not_found:
  assumes "\<forall>cmd. run_process env cmd = BinaryNotFound"
    and "process_path_try py cfg env p fs = (r, fs', fx)"
  shows "r \<noteq> Some SubprocessOSError
       \<and> count_list fx (Log ERROR FfmpegNotFound) = length (filter is_subprocess fx)"
proof -
  obtain w wfx where w: "wait_for_file_ready p 3 (polls env p) = (w, wfx)"
    by (cases "wait_for_file_ready p 3 (polls env p)")
  have wf: "count_list wfx (Log ERROR FfmpegNotFound) = 0 \<and> filter is_subprocess wfx = []"
    using wait_effects_not_found[of p 3 "polls env p"] w by simp
  show ?thesis
  proof (cases w)
    case (Inl e)
    then have "e = StatOSError"
      using w wait_loop_raises_error[of p 3 "- 1" 0 "polls env p" e]
      by (simp add: wait_for_file_ready_def)
    then show ?thesis using assms(2) w Inl wf by (auto simp add: process_path_try_def)
  next
    case (Inr b)
    show ?thesis
    proof (cases b)
      case False
      then show ?thesis using assms(2) w Inr wf by (auto simp add: process_path_try_def)
    next
      case True
      show ?thesis
      proof (cases "lower py (suffix p) \<in> image_exts cfg")
        case img: True
        show ?thesis
        proof (cases "ensure_directory fs (image_output_dir cfg)")
          case (Inl e)
          then have "e = MkdirError" by (rule ensure_directory_error)
          then show ?thesis
            using assms(2) w Inr True img Inl wf by (auto simp add: process_path_try_def)
        next
          case fs1: (Inr fs1)
          obtain fs2 cfx where c: "convert_image_to_png env p (image_output_dir cfg) fs1 = (fs2, cfx)"
            by (cases "convert_image_to_png env p (image_output_dir cfg) fs1")
          then show ?thesis
            using assms(2) w Inr True img fs1 wf convert_image_not_found[OF c]
            by (auto simp add: process_path_try_def)
        qed
      next
        case not_img: False
        show ?thesis
        proof (cases "lower py (suffix p) \<in> video_exts cfg")
          case vid: True
          show ?thesis
          proof (cases "ensure_directory fs (video_output_dir cfg)")
            case (Inl e)
            then have "e = MkdirError" by (rule ensure_directory_error)
            then show ?thesis
              using assms(2) w Inr True not_img vid Inl wf by (auto simp add: process_path_try_def)
          next
            case fs1: (Inr fs1)
            obtain r2 fs2 cfx where c: "convert_video_to_mp4 py env p (video_output_dir cfg) (ffmpeg_bin cfg)
                (video_crf cfg) (video_preset cfg) fs1 = (r2, fs2, cfx)"
              by (cases "convert_video_to_mp4 py env p (video_output_dir cfg) (ffmpeg_bin cfg)
                (video_crf cfg) (video_preset cfg) fs1") auto
            then show ?thesis
              using assms(2) w Inr True not_img vid fs1 wf convert_video_not_found[OF assms(1) c]
              by (auto simp add: process_path_try_def)
          qed
        next
          case False
          then show ?thesis
            using assms(2) w Inr True not_img wf by (auto simp add: process_path_try_def)
        qed
      qed
    qed
  qed
qed

subsection \<open>C9\<close>

text \<open>
  C9 (as amended). When the transcoder binary cannot be found, each conversion that
  tries to run it logs the error once; so the error is logged once for every video file
  attempted, not once for the process. The file is skipped: the conversion returns
  normally and leaves the file system unchanged, so the bulk pass goes on to the next
  file and a live task ends without an exception of the subprocess.
\<close>

theorem missing_binary_is_logged_per_file:
  assumes "\<forall>cmd. run_process env cmd = BinaryNotFound"
  shows "(\<not> path_exists fs (dest_dir @ [stem src @ ''.mp4'']) \<longrightarrow>
            convert_video_to_mp4 py env src dest_dir bin crf preset fs =
              (None, fs,
               [Log DEBUG (RunningFfmpeg (ffmpeg_cmd bin crf preset src (dest_dir @ [stem src @ ''.mp4'']))),
                Subprocess (ffmpeg_cmd bin crf preset src (dest_dir @ [stem src @ ''.mp4''])),
                Log ERROR FfmpegNotFound]))
       \<and> fst (process_existing_files py cfg env fs) \<noteq> Some SubprocessOSError
       \<and> count_list (snd (snd (process_existing_files py cfg env fs))) (Log ERROR FfmpegNotFound) =
           length (filter is_subprocess (snd (snd (process_existing_files py cfg env fs))))
       \<and> fst (process_path py cfg env p ip fs) \<noteq> Some SubprocessOSError
       \<and> count_list (snd (snd (snd (process_path py cfg env p ip fs)))) (Log ERROR FfmpegNotFound) =
           length (filter is_subprocess (snd (snd (snd (process_path py cfg env p ip fs)))))"
proof -
  have one: "\<not> path_exists fs (dest_dir @ [stem src @ ''.mp4'']) \<longrightarrow>
            convert_video_to_mp4 py env src dest_dir bin crf preset fs =
              (None, fs,
               [Log DEBUG (RunningFfmpeg (ffmpeg_cmd bin crf preset src (dest_dir @ [stem src @ ''.mp4'']))),
                Subprocess (ffmpeg_cmd bin crf preset src (dest_dir @ [stem src @ ''.mp4''])),
                Log ERROR FfmpegNotFound])"
    using assms by (simp add: convert_video_to_mp4_def Let_def)
  obtain r fs' fx where b: "process_existing_files py cfg env fs = (r, fs', fx)"
    by (cases "process_existing_files py cfg env fs") auto
  have bulk: "r \<noteq> Some SubprocessOSError
       \<and> count_list fx (Log ERROR FfmpegNotFound) = length (filter is_subprocess fx)"
  proof (cases "iterdir fs (input_dir cfg)")
    case (Inl e)
    then have "e = IterdirError" by (auto simp add: iterdir_def split: if_splits)
    then show ?thesis using b Inl by (auto simp add: process_existing_files_def)
  next
    case (Inr ps)
    then have "process_files py cfg env (sort ps) fs = (r, fs', fx)"
      using b by (simp add: process_existing_files_def)
    then show ?thesis using process_files_not_found[OF assms] by blast
  qed
  obtain r2 fs2 fx2 where t: "process_path_try py cfg env p fs = (r2, fs2, fx2)"
    by (cases "process_path_try py cfg env p fs") auto
  have live: "r2 \<noteq> Some SubprocessOSError
       \<and> count_list fx2 (Log ERROR FfmpegNotFound) = length (filter is_subprocess fx2)"
    using assms t by (rule process_path_try_not_found)
  show ?thesis using one b bulk t live by (simp add: process_path_def)
qed

theorem missing_binary_is_logged_per_file_witness:
  "(\<forall>cmd. run_process failing_env cmd = BinaryNotFound)
   \<and> fst (process_existing_files example_stdlib example_config failing_env fs_videos) = None
   \<and> count_list (snd (snd (process_existing_files example_stdlib example_config failing_env fs_videos)))
        (Log ERROR FfmpegNotFound) =
      length (filter is_subprocess (snd (snd (process_existing_files example_stdlib example_config failing_env fs_videos))))
   \<and> fst (snd (process_existing_files example_stdlib example_config failing_env fs_videos)) = fs_videos"
proof -
  have h: "\<forall>cmd. run_process failing_env cmd = BinaryNotFound"
    by (simp add: failing_env_def)
  have e: "fst (process_existing_files example_stdlib example_config failing_env fs_videos) = None"
    "fst (snd (process_existing_files example_stdlib example_config failing_env fs_videos)) = fs_videos"
    by code_simp+
  show ?thesis
    using h e missing_binary_is_logged_per_file[OF h, of fs_videos "[''output'', ''videos'']"
        "[''input'', ''a.mp4'']" example_stdlib "''ffmpeg''" "''23''" "''medium''" example_config "[''input'', ''a.mp4'']" "{}"]
    by simp
qed

text \<open>
  C9 as stated fails: the error is logged again for every file. With two videos in the
  input directory and no transcoder binary, the bulk pass logs it twice.
\<close>

theorem missing_binary_logged_once_counterexample:
  "count_list (snd (snd (process_existing_files example_stdlib example_config failing_env fs_videos)))
     (Log ERROR FfmpegNotFound) = 2
   \<and> filter announced (snd (snd (process_existing_files example_stdlib example_config failing_env fs_videos))) =
     [Log INFO (ProcessingExisting ''a.mp4''), Log INFO (ProcessingExisting ''b.mp4'')]"
  by code_simp

section \<open>The bulk pass and the live task\<close>






subsection \<open>C4\<close>




subsection \<open>C5\<close>

lemma hidden_file_is_ignored_live:
  "startswith (name p) ''.'' \<Longrightarrow> should_ignore py cfg fs p \<and> schedule py cfg fs ip p = (ip, [])"
  by (simp add: should_ignore_def schedule_def Let_def)

text \<open>
  C5 holds for the live path only. At the file \<^verbatim>\<open>.tmp.jpg\<close> the event handler's filter
  rejects the path, but the startup bulk pass, which has no such check, converts it to
  \<^verbatim>\<open>output/images/.tmp.png\<close>.
\<close>

theorem hidden_file_converted_by_bulk_pass:
  "should_ignore py example_config fs_hidden [''input'', ''.tmp.jpg''] = True
   \<and> process_existing_files py example_config working_env fs_hidden =
       (None,
        fs_hidden @ [([''output''], Dir), ([''output'', ''images''], Dir),
                     ([''output'', ''images'', ''.tmp.png''], File ''png'')],
        [Log INFO (ProcessingExisting ''.tmp.jpg''),
         PilConvert [''input'', ''.tmp.jpg''] [''output'', ''images'', ''.tmp.png''],
         Log INFO (ConvertedImage ''.tmp.jpg'' ''.tmp.png'')])"
  by code_simp

section \<open>The in-flight set\<close>

lemma process_path_in_flight: "fst (snd (process_path py cfg env p ip fs)) = ip - {p}"
  by (simp add: process_path_def case_prod_beta)

lemma schedule_result:
  "schedule py cfg fs ip p =
     (if should_ignore py cfg fs p \<or> p \<in> ip then (ip, []) else (insert p ip, [p]))"
  by (simp add: schedule_def)

text \<open>The threads that are active are exactly the paths in flight, each once.\<close>

lemma step_keeps_tracking:
  assumes "distinct (active w)" and "set (active w) = in_flight w"
  shows "distinct (active (fst (step py cfg w a))) \<and> set (active (fst (step py cfg w a))) = in_flight (fst (step py cfg w a))"
proof (cases a)
  case (Created ev fs)
  then show ?thesis using assms by (auto simp add: on_created_def schedule_result)
next
  case (Modified ev fs)
  then show ?thesis using assms by (auto simp add: on_modified_def schedule_result)
next
  case (Finished p env fs)
  show ?thesis
  proof (cases "p \<in> set (active w)")
    case True
    have "step py cfg w a = (\<lparr>in_flight = in_flight w - {p}, active = remove1 p (active w)\<rparr>, [])"
      using Finished True process_path_in_flight[of py cfg env p "in_flight w" fs]
      by (simp add: case_prod_beta)
    then show ?thesis using assms by auto
  next
    case False
    then show ?thesis using Finished assms by simp
  qed
qed

lemma run_keeps_tracking:
  "distinct (active w) \<Longrightarrow> set (active w) = in_flight w \<Longrightarrow>
   distinct (active (run py cfg w acts)) \<and> set (active (run py cfg w acts)) = in_flight (run py cfg w acts)"
proof (induction acts arbitrary: w)
  case (Cons a acts)
  have "distinct (active (fst (step py cfg w a))) \<and> set (active (fst (step py cfg w a))) = in_flight (fst (step py cfg w a))"
    using Cons.prems by (rule step_keeps_tracking)
  then show ?case using Cons.IH[of "fst (step py cfg w a)"] by simp
qed simp

lemma reachable_tracking:
  "distinct (active (run py cfg initial acts)) \<and>
   set (active (run py cfg initial acts)) = in_flight (run py cfg initial acts)"
  by (rule run_keeps_tracking) (simp_all add: initial_def)

lemma distinct_count_le_one: "distinct xs \<Longrightarrow> count_list xs x \<le> 1"
  by (induction xs) (auto simp add: count_list_0_iff)

lemma delivery_while_in_flight:
  "p \<in> in_flight w \<Longrightarrow> delivers py cfg p a \<Longrightarrow> step py cfg w a = (w, [])"
  by (cases a) (simp_all add: on_created_def on_modified_def schedule_result)

lemma delivery_when_free:
  "p \<notin> in_flight w \<Longrightarrow> delivers py cfg p a \<Longrightarrow>
   step py cfg w a = (\<lparr>in_flight = insert p (in_flight w), active = active w @ [p]\<rparr>, [p])"
  by (cases a) (simp_all add: on_created_def on_modified_def schedule_result)

lemma burst_while_in_flight:
  "p \<in> in_flight w \<Longrightarrow> \<forall>a \<in> set evs. delivers py cfg p a \<Longrightarrow>
   started_by py cfg w evs = replicate (length evs) [] \<and> run py cfg w evs = w"
proof (induction evs)
  case (Cons a evs)
  then have "step py cfg w a = (w, [])" using delivery_while_in_flight[of p w py cfg a] by simp
  then show ?case using Cons by simp
qed simp

lemma burst_when_free:
  assumes "p \<notin> in_flight w" and "\<forall>a \<in> set evs. delivers py cfg p a" and "evs \<noteq> []"
  shows "started_by py cfg w evs = [p] # replicate (length evs - 1) []
       \<and> run py cfg w evs = \<lparr>in_flight = insert p (in_flight w), active = active w @ [p]\<rparr>"
proof (cases evs)
  case Nil
  then show ?thesis using assms(3) by simp
next
  case (Cons a rest)
  let ?w1 = "\<lparr>in_flight = insert p (in_flight w), active = active w @ [p]\<rparr>"
  have s: "step py cfg w a = (?w1, [p])"
    using assms(1,2) Cons delivery_when_free[of p w py cfg a] by simp
  have "started_by py cfg ?w1 rest = replicate (length rest) [] \<and> run py cfg ?w1 rest = ?w1"
    using assms(2) Cons burst_while_in_flight[of p ?w1 rest py cfg] by simp
  then show ?thesis using s Cons by simp
qed

subsection \<open>C1\<close>

text \<open>
  C1. In every state the watcher reaches, whatever the interleaving of event
  deliveries and thread ends, at most one thread is active for a path. Scheduling starts
  a thread for a path only together with adding the path to the in-flight set, in the
  one step the lock protects, and only when the path was not in the set. And when a burst
  of \<open>N\<close> events for a path that is not in flight is delivered before any thread ends
  (each event passing the filter), the first event starts the one thread and each of the
  other \<open>N - 1\<close> starts none, because the path is in the in-flight set.
\<close>

theorem at_most_one_task_per_path:
  "count_list (active (run py cfg initial acts)) p \<le> 1
   \<and> (schedule py cfg fs ip p = (ip, [])
        \<or> schedule py cfg fs ip p = (insert p ip, [p]) \<and> p \<notin> ip \<and> \<not> should_ignore py cfg fs p)
   \<and> ((\<forall>a \<in> set evs. delivers py cfg p a) \<and> evs \<noteq> [] \<and> p \<notin> in_flight (run py cfg initial acts) \<longrightarrow>
        started_by py cfg (run py cfg initial acts) evs = [p] # replicate (length evs - 1) []
        \<and> count_list (active (run py cfg (run py cfg initial acts) evs)) p = 1)"
proof -
  let ?w = "run py cfg initial acts"
  have t: "distinct (active ?w)" "set (active ?w) = in_flight ?w"
    using reachable_tracking[of py cfg acts] by simp_all
  have one: "count_list (active ?w) p \<le> 1"
    using t(1) by (rule distinct_count_le_one)
  have burst: "(\<forall>a \<in> set evs. delivers py cfg p a) \<and> evs \<noteq> [] \<and> p \<notin> in_flight ?w \<longrightarrow>
        started_by py cfg ?w evs = [p] # replicate (length evs - 1) []
        \<and> count_list (active (run py cfg ?w evs)) p = 1"
  proof
    assume a: "(\<forall>a \<in> set evs. delivers py cfg p a) \<and> evs \<noteq> [] \<and> p \<notin> in_flight ?w"
    then have b: "started_by py cfg ?w evs = [p] # replicate (length evs - 1) []
       \<and> run py cfg ?w evs = \<lparr>in_flight = insert p (in_flight ?w), active = active ?w @ [p]\<rparr>"
      using burst_when_free[of p ?w evs py cfg] by simp
    have "p \<notin> set (active ?w)" using a t(2) by simp
    then have "count_list (active ?w @ [p]) p = 1" by (simp add: count_list_0_iff)
    then show "started_by py cfg ?w evs = [p] # replicate (length evs - 1) []
        \<and> count_list (active (run py cfg ?w evs)) p = 1"
      using b by simp
  qed
  have sched: "schedule py cfg fs ip p = (ip, [])
        \<or> schedule py cfg fs ip p = (insert p ip, [p]) \<and> p \<notin> ip \<and> \<not> should_ignore py cfg fs p"
    by (simp add: schedule_result)
  show ?thesis using one sched burst by blast
qed

theorem at_most_one_task_per_path_witness:
  "started_by example_stdlib example_config
       (run example_stdlib example_config initial
          [Created (file_event [''input'', ''b.jpg'']) fs_fresh,
           Finished [''input'', ''b.jpg''] working_env fs_fresh])
       [Created (file_event [''input'', ''a.MOV'']) fs_fresh,
        Modified (file_event [''input'', ''a.MOV'']) fs_fresh,
        Modified (file_event [''input'', ''a.MOV'']) fs_fresh] =
     [[[''input'', ''a.MOV'']], [], []]
   \<and> count_list (active (run example_stdlib example_config initial
          [Created (file_event [''input'', ''b.jpg'']) fs_fresh,
           Modified (file_event [''input'', ''b.jpg'']) fs_fresh])) [''input'', ''b.jpg''] = 1"
proof -
  let ?acts = "[Created (file_event [''input'', ''b.jpg'']) fs_fresh,
           Finished [''input'', ''b.jpg''] working_env fs_fresh]"
  let ?evs = "[Created (file_event [''input'', ''a.MOV'']) fs_fresh,
        Modified (file_event [''input'', ''a.MOV'']) fs_fresh,
        Modified (file_event [''input'', ''a.MOV'']) fs_fresh]"
  have d: "\<not> should_ignore example_stdlib example_config fs_fresh [''input'', ''a.MOV'']" by code_simp
  have h1: "\<forall>a \<in> set ?evs. delivers example_stdlib example_config [''input'', ''a.MOV''] a"
    using d by (simp add: file_event_def)
  have h2: "?evs \<noteq> []" by simp
  have r: "run example_stdlib example_config initial ?acts = initial" by code_simp
  have h3: "[''input'', ''a.MOV''] \<notin> in_flight (run example_stdlib example_config initial ?acts)"
    unfolding r by (simp add: initial_def)
  have c: "count_list (active (run example_stdlib example_config initial
          [Created (file_event [''input'', ''b.jpg'']) fs_fresh,
           Modified (file_event [''input'', ''b.jpg'']) fs_fresh])) [''input'', ''b.jpg''] = 1"
    by code_simp
  have "started_by example_stdlib example_config (run example_stdlib example_config initial ?acts) ?evs =
      [[''input'', ''a.MOV'']] # replicate (length ?evs - 1) []"
    using at_most_one_task_per_path[where cfg = example_config and acts = "?acts"
        and p = "[''input'', ''a.MOV'']" and evs = "?evs"] h1 h2 h3
    by blast
  then have "started_by example_stdlib example_config (run example_stdlib example_config initial ?acts) ?evs =
      [[[''input'', ''a.MOV'']], [], []]"
    by (simp del: run.simps started_by.simps)
  then show ?thesis using c by blast
qed

subsection \<open>C2\<close>

text \<open>
  C2. However the task for a path ends, its entry is gone from the in-flight set: the
  set after \<^verbatim>\<open>_process_path\<close> is the set before without the path, also when the wait
  raises and when the file does not stabilize (the early return), and for every result
  of the converters. So in every state the watcher reaches the in-flight set holds
  exactly the paths whose thread is still active, and the end of a thread removes its
  path.
\<close>

theorem in_flight_entry_is_released:
  "fst (snd (process_path py cfg env p ip fs)) = ip - {p}
   \<and> p \<notin> fst (snd (process_path py cfg env p ip fs))
   \<and> (fst (wait_for_file_ready p 3 (polls env p)) = Inl e \<longrightarrow>
        process_path py cfg env p ip fs =
          (Some e, ip - {p}, fs, snd (wait_for_file_ready p 3 (polls env p))))
   \<and> (fst (wait_for_file_ready p 3 (polls env p)) = Inr False \<longrightarrow>
        process_path py cfg env p ip fs =
          (None, ip - {p}, fs,
           snd (wait_for_file_ready p 3 (polls env p)) @ [Log WARNING (NotStabilized p)]))
   \<and> in_flight (run py cfg initial acts) = set (active (run py cfg initial acts))
   \<and> (p \<in> set (active (run py cfg initial acts)) \<longrightarrow>
        p \<notin> in_flight (fst (step py cfg (run py cfg initial acts) (Finished p env fs))))"
proof -
  have a: "fst (snd (process_path py cfg env p ip fs)) = ip - {p}"
    by (rule process_path_in_flight)
  have b: "fst (wait_for_file_ready p 3 (polls env p)) = Inl e \<longrightarrow>
        process_path py cfg env p ip fs =
          (Some e, ip - {p}, fs, snd (wait_for_file_ready p 3 (polls env p)))"
    by (cases "wait_for_file_ready p 3 (polls env p)")
      (simp add: process_path_def process_path_try_def)
  have c: "fst (wait_for_file_ready p 3 (polls env p)) = Inr False \<longrightarrow>
        process_path py cfg env p ip fs =
          (None, ip - {p}, fs,
           snd (wait_for_file_ready p 3 (polls env p)) @ [Log WARNING (NotStabilized p)])"
    by (cases "wait_for_file_ready p 3 (polls env p)")
      (simp add: process_path_def process_path_try_def)
  have d: "in_flight (run py cfg initial acts) = set (active (run py cfg initial acts))"
    using reachable_tracking[of py cfg acts] by simp
  have f: "p \<in> set (active (run py cfg initial acts)) \<longrightarrow>
        p \<notin> in_flight (fst (step py cfg (run py cfg initial acts) (Finished p env fs)))"
    using process_path_in_flight[of py cfg env p "in_flight (run py cfg initial acts)" fs]
    by (simp add: case_prod_beta)
  show ?thesis using a b c d f by simp
qed

theorem in_flight_entry_is_released_witness:
  "process_path example_stdlib example_config stat_error_env [''input'', ''a.MOV'']
       {[''input'', ''a.MOV''], [''input'', ''b.jpg'']} fs_fresh =
     (Some StatOSError, {[''input'', ''a.MOV''], [''input'', ''b.jpg'']} - {[''input'', ''a.MOV'']}, fs_fresh,
      [Sleep, Log DEBUG (FileMissingRetry [''input'', ''a.MOV'']), Sleep])
   \<and> process_path example_stdlib example_config zero_env [''input'', ''a.MOV'']
       {[''input'', ''a.MOV''], [''input'', ''b.jpg'']} fs_fresh =
     (None, {[''input'', ''a.MOV''], [''input'', ''b.jpg'']} - {[''input'', ''a.MOV'']}, fs_fresh,
      [Sleep, Sleep, Sleep, Sleep, Log WARNING (NotStabilized [''input'', ''a.MOV''])])
   \<and> fst (process_path example_stdlib example_config broken_env [''input'', ''a.MOV'']
       {[''input'', ''a.MOV''], [''input'', ''b.jpg'']} fs_fresh) = Some SubprocessOSError
   \<and> fst (snd (process_path example_stdlib example_config broken_env [''input'', ''a.MOV'']
       {[''input'', ''a.MOV''], [''input'', ''b.jpg'']} fs_fresh)) =
       {[''input'', ''a.MOV''], [''input'', ''b.jpg'']} - {[''input'', ''a.MOV'']}
   \<and> in_flight (fst (step example_stdlib example_config
         (run example_stdlib example_config initial [Created (file_event [''input'', ''a.MOV'']) fs_fresh])
         (Finished [''input'', ''a.MOV''] broken_env fs_fresh))) = {}"
proof -
  let ?p = "[''input'', ''a.MOV'']"
  let ?ip = "{[''input'', ''a.MOV''], [''input'', ''b.jpg'']}"
  have w1: "wait_for_file_ready ?p 3 (polls stat_error_env ?p) =
      (Inl StatOSError, [Sleep, Log DEBUG (FileMissingRetry ?p), Sleep])"
    by code_simp
  have w2: "wait_for_file_ready ?p 3 (polls zero_env ?p) = (Inr False, [Sleep, Sleep, Sleep, Sleep])"
    by code_simp
  have x: "fst (process_path example_stdlib example_config broken_env ?p ?ip fs_fresh) = Some SubprocessOSError"
    by code_simp
  have r: "run example_stdlib example_config initial [Created (file_event ?p) fs_fresh] =
      \<lparr>in_flight = {?p}, active = [?p]\<rparr>"
    by code_simp
  note t1 = in_flight_entry_is_released[of example_stdlib example_config stat_error_env ?p ?ip fs_fresh StatOSError "[]"]
  note t2 = in_flight_entry_is_released[of example_stdlib example_config zero_env ?p ?ip fs_fresh StatOSError "[]"]
  note t3 = in_flight_entry_is_released[of example_stdlib example_config broken_env ?p ?ip fs_fresh StatOSError
      "[Created (file_event ?p) fs_fresh]"]
  have s: "in_flight (fst (step example_stdlib example_config
         (run example_stdlib example_config initial [Created (file_event ?p) fs_fresh])
         (Finished ?p broken_env fs_fresh))) = {}"
    unfolding r
    using process_path_in_flight[of example_stdlib example_config broken_env ?p "{?p}" fs_fresh]
    by (simp add: case_prod_beta)
  show ?thesis using t1 t2 t3 w1 w2 x s by simp
qed

end
